theory Spec2Isabelle
  imports Main "HOL-Library.AList"
begin

chapter \<open>MonitoRSS: refresh scheduling, feed fetching and article delivery\<close>

text \<open>
  A shallow embedding of three services of the repository:
  \<^item> \<open>ScheduleHandlerService\<close> (\<open>handleRefreshRate\<close>, \<open>syncRefreshRates\<close>,
    \<open>syncMaxDailyArticles\<close>),
  \<^item> \<open>FeedFetcherService\<close> (\<open>fetchAndSaveResponse\<close>, \<open>getLatestRequest\<close>),
  \<^item> \<open>DiscordMediumService\<close> (\<open>deliverArticle\<close>).

  The services are asynchronous TypeScript. Every \<open>await\<close> of the source is a sequencing
  point, so one call is modelled as a function from the state of the collaborators before
  the call to the state after it. What a collaborator answers (the HTTP response, whether a
  write is rejected) is an input of the model; what the service asks of a collaborator is
  recorded in the state.
\<close>

section \<open>ScheduleHandlerService\<close>

text \<open>
  The schedule handler catches no exception, so a rejected database call or a rejected
  \<open>urlsHandler\<close> ends the call at that point. The model describes the executions in which
  these calls resolve, and records each of them in a trace.
\<close>

subsection \<open>Data\<close>

text \<open>
  One element of \<open>getBenefitsOfAllDiscordUsers()\<close>. Only the fields read by the schedule
  handler are kept. JavaScript numbers are modelled as integers.
\<close>

record benefits =
  discordUserId :: string
  isSupporter :: bool
  refreshRateSeconds :: int
  maxDailyArticles :: int

text \<open>
  A document of the \<open>UserFeed\<close> collection. \<open>uf_discordUserId\<close> is the path
  \<open>user.discordUserId\<close>. A field that a document may lack is an option; \<open>$ne\<close> matches a
  document that lacks the field.
\<close>

record userFeed =
  uf_url :: "string option"
  uf_discordUserId :: string
  uf_refreshRateSeconds :: "int option"
  uf_maxDailyArticles :: "int option"
  uf_debug :: bool

datatype idFilter = In "string list" | Nin "string list"

datatype field = RefreshRateSeconds | MaxDailyArticles

text \<open>An element of a URL batch: \<open>{ url, saveToObjectStorage }\<close>.\<close>

record urlItem =
  url :: string
  saveToObjectStorage :: bool

text \<open>
  The calls the schedule handler makes, in the order in which it makes them.
  \<open>UpdateMany f fld v n\<close> is \<open>userFeedModel.updateMany({"user.discordUserId": f, fld: {$ne: v}},
  {$set: {fld: v}})\<close> and \<open>n\<close> the number of documents it matched. \<open>CursorNext d\<close> is one
  document pulled from the aggregation cursor (\<open>d\<close> its \<open>_id\<close>), \<open>UrlsHandler b\<close> one
  call of the \<open>urlsHandler\<close> callback.
\<close>

datatype event =
    GetBenefitsOfAllDiscordUsers
  | UpdateMany idFilter field int nat
  | FindDebugFeeds
  | AggregateCursor int
  | CursorNext "string option"
  | UrlsHandler "urlItem list"

record world =
  store :: "userFeed list"
  trace :: "event list"

text \<open>
  What the handler is configured with and what its collaborators answer:
  the two process-wide defaults, the benefits snapshot, and the aggregation stages of
  \<open>getCommonFeedAggregateStages\<close>, a function of \<open>common/utils\<close> that is taken as a
  parameter (the documents that pass the stages for a refresh rate), and the order in which
  the database returns the groups of a \<open>$group\<close> stage, which it does not specify
  (\<open>groupOrder\<close>, a rearrangement of the list it is given).
\<close>

record config =
  defaultRefreshRateSeconds :: int
  maxDailyArticlesDefault :: int
  getBenefitsOfAllDiscordUsers :: "benefits list"
  getCommonFeedAggregateStages :: "int \<Rightarrow> userFeed list \<Rightarrow> userFeed list"
  groupOrder :: "string option list \<Rightarrow> string option list"

subsection \<open>Bulk updates\<close>

fun idMatches :: "idFilter \<Rightarrow> string \<Rightarrow> bool" where
  "idMatches (In ids) u = (u \<in> set ids)"
| "idMatches (Nin ids) u = (u \<notin> set ids)"

fun getField :: "field \<Rightarrow> userFeed \<Rightarrow> int option" where
  "getField RefreshRateSeconds d = uf_refreshRateSeconds d"
| "getField MaxDailyArticles d = uf_maxDailyArticles d"

fun setField :: "field \<Rightarrow> int \<Rightarrow> userFeed \<Rightarrow> userFeed" where
  "setField RefreshRateSeconds v d = d\<lparr>uf_refreshRateSeconds := Some v\<rparr>"
| "setField MaxDailyArticles v d = d\<lparr>uf_maxDailyArticles := Some v\<rparr>"

definition matches :: "idFilter \<Rightarrow> field \<Rightarrow> int \<Rightarrow> userFeed \<Rightarrow> bool" where
  "matches f fld v d = (idMatches f (uf_discordUserId d) \<and> getField fld d \<noteq> Some v)"

definition updateMany :: "idFilter \<Rightarrow> field \<Rightarrow> int \<Rightarrow> world \<Rightarrow> world" where
  "updateMany f fld v w =
     w\<lparr>store := map (\<lambda>d. if matches f fld v d then setField fld v d else d) (store w),
       trace := trace w @ [UpdateMany f fld v (length (filter (matches f fld v) (store w)))]\<rparr>"

subsection \<open>syncRefreshRates and syncMaxDailyArticles\<close>

text \<open>
  The \<open>Map<number, string[]>\<close> built by the loop over the supporters, as an association list
  in insertion order: a new key is appended, an existing key has the user id pushed onto
  its array.
\<close>

fun addSupporter :: "int \<Rightarrow> string \<Rightarrow> (int \<times> string list) list \<Rightarrow> (int \<times> string list) list" where
  "addSupporter k u [] = [(k, [u])]"
| "addSupporter k u ((k', ids) # m) =
     (if k' = k then (k', ids @ [u]) # m else (k', ids) # addSupporter k u m)"

definition groupSupporters :: "(benefits \<Rightarrow> int) \<Rightarrow> benefits list \<Rightarrow> (int \<times> string list) list" where
  "groupSupporters key validSupporters =
     foldl (\<lambda>m s. addSupporter (key s) (discordUserId s) m) [] validSupporters"

text \<open>
  \<open>Promise.all(entries.map(async ...))\<close> issues one \<open>updateMany\<close> per entry, in the order
  of the entries; they are applied in that order. After all have resolved,
  \<open>specialDiscordUserIds\<close> holds every id of every entry.
\<close>

definition syncField :: "field \<Rightarrow> (benefits \<Rightarrow> int) \<Rightarrow> int \<Rightarrow> benefits list \<Rightarrow> world \<Rightarrow> world" where
  "syncField fld key dflt bs w =
     (let validSupporters = filter isSupporter bs;
          entries = groupSupporters key validSupporters;
          w1 = foldl (\<lambda>w (v, discordUserIds). updateMany (In discordUserIds) fld v w) w entries;
          specialDiscordUserIds = concat (map snd entries)
      in updateMany (Nin specialDiscordUserIds) fld dflt w1)"

definition syncRefreshRates :: "config \<Rightarrow> benefits list \<Rightarrow> world \<Rightarrow> world" where
  "syncRefreshRates cfg bs w =
     syncField RefreshRateSeconds refreshRateSeconds (defaultRefreshRateSeconds cfg) bs w"

definition syncMaxDailyArticles :: "config \<Rightarrow> benefits list \<Rightarrow> world \<Rightarrow> world" where
  "syncMaxDailyArticles cfg bs w =
     syncField MaxDailyArticles maxDailyArticles (maxDailyArticlesDefault cfg) bs w"

subsection \<open>handleRefreshRate\<close>

text \<open>
  \<open>getUrlsQueryMatchingRefreshRate\<close>: the common stages followed by
  \<open>{$group: {_id: "$url"}}\<close>, which yields each distinct url once
  (\<open>None\<close> for documents without a url), in the order the database chooses.
\<close>

definition getUrlsQueryMatchingRefreshRate :: "config \<Rightarrow> int \<Rightarrow> userFeed list \<Rightarrow> string option list" where
  "getUrlsQueryMatchingRefreshRate cfg rate docs =
     groupOrder cfg (remdups (map uf_url (getCommonFeedAggregateStages cfg rate docs)))"

text \<open>\<open>!url\<close> for a value that is a string or null.\<close>

fun falsy :: "string option \<Rightarrow> bool" where
  "falsy None = True"
| "falsy (Some s) = (s = [])"

definition logEvent :: "event \<Rightarrow> world \<Rightarrow> world" where
  "logEvent e w = w\<lparr>trace := trace w @ [e]\<rparr>"

text \<open>
  The \<open>for await\<close> loop over the cursor. The arguments are the urls to debug, the documents
  the cursor still has to yield, the current \<open>urlBatch\<close> and the world; the result is the
  \<open>urlBatch\<close> left when the cursor is exhausted.
\<close>

fun urlsLoop :: "string option set \<Rightarrow> string option list \<Rightarrow> urlItem list \<Rightarrow> world \<Rightarrow> urlItem list \<times> world" where
  "urlsLoop urlsToDebug [] urlBatch w = (urlBatch, w)"
| "urlsLoop urlsToDebug (d # ds) urlBatch w =
     (let w1 = logEvent (CursorNext d) w in
      case d of
        None \<Rightarrow> urlsLoop urlsToDebug ds urlBatch w1
      | Some u \<Rightarrow>
          if u = [] then urlsLoop urlsToDebug ds urlBatch w1
          else
            let urlBatch1 = urlBatch @ [\<lparr>url = u, saveToObjectStorage = (Some u \<in> urlsToDebug)\<rparr>]
            in if length urlBatch1 = 25
               then urlsLoop urlsToDebug ds [] (logEvent (UrlsHandler urlBatch1) w1)
               else urlsLoop urlsToDebug ds urlBatch1 w1)"

text \<open>The loop from an empty batch, followed by the flush of what is left.\<close>

definition dispatchUrls :: "string option set \<Rightarrow> string option list \<Rightarrow> world \<Rightarrow> world" where
  "dispatchUrls urlsToDebug urlsCursor w =
     (let (urlBatch, w1) = urlsLoop urlsToDebug urlsCursor [] w
      in if length urlBatch > 0 then logEvent (UrlsHandler urlBatch) w1 else w1)"

definition handleRefreshRate :: "config \<Rightarrow> int \<Rightarrow> world \<Rightarrow> world" where
  "handleRefreshRate cfg rate w =
     (let allBenefits = getBenefitsOfAllDiscordUsers cfg;
          w1 = logEvent GetBenefitsOfAllDiscordUsers w;
          w2 = syncRefreshRates cfg allBenefits w1;
          w3 = syncMaxDailyArticles cfg allBenefits w2;
          feedsToDebug = filter uf_debug (store w3);
          w4 = logEvent FindDebugFeeds w3;
          urlsToDebug = set (map uf_url feedsToDebug);
          urlsCursor = getUrlsQueryMatchingRefreshRate cfg rate (store w4);
          w5 = logEvent (AggregateCursor rate) w4
      in dispatchUrls urlsToDebug urlsCursor w5)"

subsection \<open>Notions used to state the properties of the schedule handler\<close>

text \<open>The batches passed to \<open>urlsHandler\<close>, in call order.\<close>

fun handlerCalls :: "event list \<Rightarrow> urlItem list list" where
  "handlerCalls [] = []"
| "handlerCalls (UrlsHandler b # es) = b # handlerCalls es"
| "handlerCalls (_ # es) = handlerCalls es"

text \<open>The events a call appends to the trace.\<close>

definition newEvents :: "world \<Rightarrow> world \<Rightarrow> event list" where
  "newEvents w w' = drop (length (trace w)) (trace w')"

text \<open>The urls of a cursor stream that the loop does not skip, as batch elements, in
  cursor order.\<close>

definition dueItems :: "string option set \<Rightarrow> string option list \<Rightarrow> urlItem list" where
  "dueItems urlsToDebug ds =
     map (\<lambda>d. \<lparr>url = the d, saveToObjectStorage = (d \<in> urlsToDebug)\<rparr>)
       (filter (\<lambda>d. \<not> falsy d) ds)"

text \<open>The documents pulled from the cursor, in order.\<close>

fun cursorPulls :: "event list \<Rightarrow> string option list" where
  "cursorPulls [] = []"
| "cursorPulls (CursorNext d # es) = d # cursorPulls es"
| "cursorPulls (_ # es) = cursorPulls es"

text \<open>The number of documents a bulk update matched, which is the number it wrote: a
  matched document holds another value than the one set.\<close>

fun writes :: "event \<Rightarrow> nat" where
  "writes (UpdateMany f fld v n) = n"
| "writes _ = 0"

fun isUpdateMany :: "event \<Rightarrow> bool" where
  "isUpdateMany (UpdateMany f fld v n) = True"
| "isUpdateMany _ = False"

text \<open>The world once both synchronisations of \<open>handleRefreshRate\<close> have resolved.\<close>

definition afterSync :: "config \<Rightarrow> world \<Rightarrow> world" where
  "afterSync cfg w =
     syncMaxDailyArticles cfg (getBenefitsOfAllDiscordUsers cfg)
       (syncRefreshRates cfg (getBenefitsOfAllDiscordUsers cfg)
          (logEvent GetBenefitsOfAllDiscordUsers w))"

text \<open>
  The value a subscriber is entitled to under a snapshot: the value of the first supporter
  entry with the subscriber's id, the process-wide default when there is none.
\<close>

definition entitledValue :: "(benefits \<Rightarrow> int) \<Rightarrow> int \<Rightarrow> benefits list \<Rightarrow> string \<Rightarrow> int" where
  "entitledValue key dflt bs u =
     (case find (\<lambda>b. isSupporter b \<and> discordUserId b = u) bs of
        Some b \<Rightarrow> key b
      | None \<Rightarrow> dflt)"

text \<open>No subscriber is listed as a supporter with two different values.\<close>

definition oneValuePerSupporter :: "(benefits \<Rightarrow> int) \<Rightarrow> benefits list \<Rightarrow> bool" where
  "oneValuePerSupporter key bs =
     (\<forall>a \<in> set bs. \<forall>b \<in> set bs.
        isSupporter a \<and> isSupporter b \<and> discordUserId a = discordUserId b \<longrightarrow> key a = key b)"

subsection \<open>Auxiliary functions of the proofs\<close>

text \<open>The events and the remaining batch of \<open>urlsLoop\<close>, without the world.\<close>

fun loopEvents :: "string option set \<Rightarrow> string option list \<Rightarrow> urlItem list \<Rightarrow> event list" where
  "loopEvents D [] b = []"
| "loopEvents D (d # ds) b =
     CursorNext d #
     (if falsy d then loopEvents D ds b
      else let b1 = b @ [\<lparr>url = the d, saveToObjectStorage = (d \<in> D)\<rparr>]
           in if length b1 = 25 then UrlsHandler b1 # loopEvents D ds [] else loopEvents D ds b1)"

fun loopRest :: "string option set \<Rightarrow> string option list \<Rightarrow> urlItem list \<Rightarrow> urlItem list" where
  "loopRest D [] b = b"
| "loopRest D (d # ds) b =
     (if falsy d then loopRest D ds b
      else let b1 = b @ [\<lparr>url = the d, saveToObjectStorage = (d \<in> D)\<rparr>]
           in if length b1 = 25 then loopRest D ds [] else loopRest D ds b1)"

text \<open>What one bulk update does to one document, and the group updates of a
  synchronisation.\<close>

definition updateDoc :: "idFilter \<Rightarrow> field \<Rightarrow> int \<Rightarrow> userFeed \<Rightarrow> userFeed" where
  "updateDoc f fld v d = (if matches f fld v d then setField fld v d else d)"

definition groupUpdates :: "field \<Rightarrow> (int \<times> string list) list \<Rightarrow> world \<Rightarrow> world" where
  "groupUpdates fld entries w =
     foldl (\<lambda>w (v, discordUserIds). updateMany (In discordUserIds) fld v w) w entries"

text \<open>The pairs of a value and a user id grouped under it.\<close>

fun members :: "(int \<times> string list) list \<Rightarrow> (int \<times> string) set" where
  "members [] = {}"
| "members ((k, ids) # m) = Pair k ` set ids \<union> members m"

subsection \<open>Example inputs of the schedule handler\<close>

definition cfg0 :: config where
  "cfg0 = \<lparr>defaultRefreshRateSeconds = 600, maxDailyArticlesDefault = 50,
           getBenefitsOfAllDiscordUsers =
             [\<lparr>discordUserId = ''u1'', isSupporter = True, refreshRateSeconds = 120,
               maxDailyArticles = 500\<rparr>],
           getCommonFeedAggregateStages = (\<lambda>r. filter (\<lambda>d. uf_refreshRateSeconds d = Some r)),
           groupOrder = rev\<rparr>"

definition w0 :: world where
  "w0 = \<lparr>store =
           [\<lparr>uf_url = Some ''https://a.example/feed.xml'', uf_discordUserId = ''u1'',
             uf_refreshRateSeconds = Some 600, uf_maxDailyArticles = Some 50, uf_debug = False\<rparr>,
            \<lparr>uf_url = Some ''https://b.example/feed.xml'', uf_discordUserId = ''u2'',
             uf_refreshRateSeconds = Some 120, uf_maxDailyArticles = Some 50, uf_debug = True\<rparr>],
         trace = []\<rparr>"

definition ds0 :: "string option list" where
  "ds0 = replicate 12 (Some ''u'') @ [None, Some ''''] @ replicate 18 (Some ''v'')"

text \<open>A snapshot that lists the subscriber \<open>u1\<close> twice, with two refresh rates.\<close>

definition bsDup :: "benefits list" where
  "bsDup = [\<lparr>discordUserId = ''u1'', isSupporter = True, refreshRateSeconds = 60, maxDailyArticles = 100\<rparr>,
            \<lparr>discordUserId = ''u1'', isSupporter = True, refreshRateSeconds = 120, maxDailyArticles = 100\<rparr>]"

section \<open>FeedFetcherService\<close>

subsection \<open>Data\<close>

text \<open>
  What a rejected promise or a \<open>throw\<close> carries: a \<open>FetchError\<close> of node-fetch with its
  \<open>type\<close> and \<open>message\<close>, the service's own \<open>FeedTooLargeException\<close>, or any other
  \<open>Error\<close>, each with its message.
\<close>

datatype exn =
    FetchError string string
  | FeedTooLargeException string
  | Error string

fun message :: "exn \<Rightarrow> string" where
  "message (FetchError t m) = m"
| "message (FeedTooLargeException m) = m"
| "message (Error m) = m"

text \<open>\<open>err instanceof FeedTooLargeException\<close>\<close>

fun isFeedTooLargeException :: "exn \<Rightarrow> bool" where
  "isFeedTooLargeException (FeedTooLargeException m) = True"
| "isFeedTooLargeException _ = False"

text \<open>\<open>err instanceof FetchError && err.type === 'request-timeout'\<close>\<close>

fun isRequestTimeout :: "exn \<Rightarrow> bool" where
  "isRequestTimeout (FetchError t m) = (t = ''request-timeout'')"
| "isRequestTimeout _ = False"

datatype RequestStatus =
  OK | BAD_STATUS_CODE | FETCH_ERROR | FETCH_TIMEOUT | PARSE_ERROR | REFUSED_LARGE_FEED

record fetchOptions =
  userAgent :: "string option"
  fo_headers :: "(string \<times> string) list option"

record responseHeaders =
  etag :: "string option"
  lastModified :: "string option"

text \<open>
  The entities \<open>Response\<close> and \<open>Request\<close>. A field that \<open>new Response()\<close> or
  \<open>new Request()\<close> leaves unset is \<open>None\<close> until it is assigned.
\<close>

record Response =
  rs_createdAt :: nat
  statusCode :: nat
  rs_headers :: responseHeaders
  textHash :: "string option"
  redisCacheKey :: "string option"
  s3ObjectKey :: "string option"
  isCloudflare :: "bool option"

record Request =
  rq_url :: string
  rq_createdAt :: nat
  status :: "RequestStatus option"
  errorMessage :: "string option"
  fetchOptions :: fetchOptions
  response :: "Response option"

text \<open>
  The response of node-fetch: its status and its headers (\<open>headers.get(name)\<close>). \<open>res.ok\<close>
  is node-fetch's \<open>status >= 200 && status < 300\<close>.
\<close>

record fetchResponse =
  fr_status :: nat
  fr_headers :: "string \<Rightarrow> string option"

definition ok :: "fetchResponse \<Rightarrow> bool" where
  "ok res = (200 \<le> fr_status res \<and> fr_status res < 300)"

definition NOT_MODIFIED :: nat where
  "NOT_MODIFIED = 304"

text \<open>The optional \<open>options\<close> argument; an absent flag is \<open>False\<close>.\<close>

record options =
  flushEntities :: bool
  saveResponseToObjectStorage :: bool
  opt_headers :: "(string \<times> string) list option"

text \<open>\<open>responseText\<close> of the result: absent, \<open>null\<close>, or a string.\<close>

datatype responseText = NoText | NullText | Text string

record fetchResult =
  request :: Request
  responseText :: responseText

datatype logEntry =
    LogDebug string
  | LogError string
  | LogDatadog string string nat

text \<open>
  The collaborators of the fetcher as the state they hold: the bodies written to the cache
  and to the object file storage (key and body, oldest first), the entities handed to
  \<open>responseRepo.persist\<close> and \<open>requestRepo.persist\<close>, the number of flushes, and the
  log. \<open>persist\<close> registers an entity with the unit of work; the database is written by
  \<open>flush\<close>. A write that is rejected leaves its store as it was.
\<close>

record fetcherWorld =
  cacheStorage :: "(string \<times> string) list"
  objectFileStorage :: "(string \<times> string) list"
  responseRepo :: "Response list"
  requestRepo :: "Request list"
  flushed :: nat
  logged :: "logEntry list"

text \<open>
  What the collaborators answer during one call: the configuration, the clock, the outcome
  of \<open>fetch\<close> for a url and request headers, of \<open>res.text()\<close> and of
  \<open>iconv.decode(Buffer.from(await res.arrayBuffer()), charset)\<close>, of \<open>deflate\<close> followed
  by \<open>toString('base64')\<close>, the value of \<open>randomUUID()\<close>, and whether the two stores and
  \<open>flush\<close> reject (\<open>Some err\<close>) or resolve (\<open>None\<close>).
\<close>

record fetchEnv =
  feedUserAgent :: "string option"
  defaultUserAgent :: string
  newDate :: nat
  fetch :: "string \<Rightarrow> (string \<times> string) list \<Rightarrow> exn + fetchResponse"
  resText :: "fetchResponse \<Rightarrow> exn + string"
  iconvDecode :: "fetchResponse \<Rightarrow> string \<Rightarrow> exn + string"
  deflate :: "string \<Rightarrow> exn + string"
  inflate :: "string \<Rightarrow> string"
  randomUUID :: string
  uploadFeedHtmlContent :: "string \<Rightarrow> string \<Rightarrow> exn option"
  setFeedHtmlContent :: "string \<Rightarrow> string \<Rightarrow> exn option"
  flush :: "exn option"

subsection \<open>The shared hash object\<close>

text \<open>
  \<open>const sha1 = createHash('sha1')\<close> is created once and never updated or digested: every
  use is \<open>sha1.copy().update(data).digest('hex')\<close>. A hash object is the data it has been
  fed. The digest function itself, SHA-1 rendered in hexadecimal, is the parameter \<open>H\<close> of
  the functions below.
\<close>

record hash =
  hashData :: string

definition createHash :: hash where
  "createHash = \<lparr>hashData = []\<rparr>"

definition sha1 :: hash where
  "sha1 = createHash"

definition copy :: "hash \<Rightarrow> hash" where
  "copy h = h"

definition update :: "hash \<Rightarrow> string \<Rightarrow> hash" where
  "update h s = h\<lparr>hashData := hashData h @ s\<rparr>"

definition digest :: "(string \<Rightarrow> string) \<Rightarrow> hash \<Rightarrow> string" where
  "digest H h = H (hashData h)"

subsection \<open>Strings\<close>

text \<open>\<open>s.split(c)\<close> for a one-character separator, \<open>s.includes(t)\<close>, and \<open>s.trim()\<close>.
  A character is a code from 0 to 255, as in the value of a header; the white space and
  line terminators of JavaScript among them are the codes 9 to 13, 32 and 160 (the
  no-break space).\<close>

fun split :: "char \<Rightarrow> string \<Rightarrow> string list" where
  "split c [] = [[]]"
| "split c (x # xs) =
     (if x = c then [] # split c xs
      else (case split c xs of [] \<Rightarrow> [[x]] | p # ps \<Rightarrow> (x # p) # ps))"

fun startsWith :: "string \<Rightarrow> string \<Rightarrow> bool" where
  "startsWith s [] = True"
| "startsWith [] (y # t) = False"
| "startsWith (x # s) (y # t) = (x = y \<and> startsWith s t)"

fun includesStr :: "string \<Rightarrow> string \<Rightarrow> bool" where
  "includesStr [] t = (t = [])"
| "includesStr (x # s) t = (startsWith (x # s) t \<or> includesStr s t)"

definition isSpace :: "char \<Rightarrow> bool" where
  "isSpace c = (c \<in> set [CHR '' '', CHR 0x09, CHR 0x0A, CHR 0x0B, CHR 0x0C, CHR 0x0D, CHR 0xA0])"

definition trim :: "string \<Rightarrow> string" where
  "trim s = rev (dropWhile isSpace (rev (dropWhile isSpace s)))"

definition lower :: "char \<Rightarrow> char" where
  "lower c = (if c = CHR ''U'' then CHR ''u'' else if c = CHR ''T'' then CHR ''t''
              else if c = CHR ''F'' then CHR ''f'' else c)"

text \<open>\<open>/utf-*8/i.test(s)\<close>: somewhere in \<open>s\<close> the letters \<open>utf\<close> in either case, any number
  of hyphens, and \<open>8\<close>.\<close>

fun utf8Here :: "string \<Rightarrow> bool" where
  "utf8Here (u # t # f # rest) =
     (lower u = CHR ''u'' \<and> lower t = CHR ''t'' \<and> lower f = CHR ''f'' \<and>
      (case dropWhile (\<lambda>c. c = CHR ''-'') rest of [] \<Rightarrow> False | c # _ \<Rightarrow> c = CHR ''8''))"
| "utf8Here _ = False"

fun testUtf8 :: "string \<Rightarrow> bool" where
  "testUtf8 [] = False"
| "testUtf8 (x # s) = (utf8Here (x # s) \<or> testUtf8 s)"

subsection \<open>The methods\<close>

definition trimHeadersForStorage :: "(string \<times> string) list option \<Rightarrow> (string \<times> string) list option" where
  "trimHeadersForStorage obj =
     (case obj of
        None \<Rightarrow> None
      | Some hs \<Rightarrow> Some (filter (\<lambda>(key, v). v \<noteq> []) hs))"

text \<open>
  \<open>fetchFeedResponse\<close>: the request headers are the given ones with \<open>user-agent\<close> set to
  \<open>options.userAgent || this.defaultUserAgent\<close>.
\<close>

definition fetchFeedResponse :: "fetchEnv \<Rightarrow> string \<Rightarrow> fetchOptions \<Rightarrow> exn + fetchResponse" where
  "fetchFeedResponse env u fo =
     fetch env u
       (AList.update ''user-agent''
          (case userAgent fo of
             None \<Rightarrow> defaultUserAgent env
           | Some ua \<Rightarrow> if ua = [] then defaultUserAgent env else ua)
          (case fo_headers fo of None \<Rightarrow> [] | Some hs \<Rightarrow> hs))"

text \<open>
  \<open>maybeDecodeResponse\<close>. The charset is read off the \<open>content-type\<close> header; when the part
  that names the charset has no \<open>=\<close>, \<open>split('=')[1]\<close> is undefined and \<open>.trim()\<close> throws a
  \<open>TypeError\<close>.
\<close>

definition charsetOf :: "fetchResponse \<Rightarrow> exn + string option" where
  "charsetOf res =
     (case fr_headers res ''content-type'' of
        None \<Rightarrow> Inr None
      | Some ct \<Rightarrow>
          (case find (\<lambda>s. includesStr s ''charset'') (split CHR '';'' ct) of
             None \<Rightarrow> Inr None
           | Some part \<Rightarrow>
               (case split CHR ''='' part of
                  _ # v # _ \<Rightarrow> Inr (Some (trim v))
                | _ \<Rightarrow> Inl (Error ''Cannot read properties of undefined (reading 'trim')''))))"

definition maybeDecodeResponse :: "fetchEnv \<Rightarrow> fetchResponse \<Rightarrow> exn + string" where
  "maybeDecodeResponse env res =
     (case charsetOf res of
        Inl err \<Rightarrow> Inl err
      | Inr None \<Rightarrow> resText env res
      | Inr (Some charset) \<Rightarrow>
          if charset = [] \<or> testUtf8 charset then resText env res
          else iconvDecode env res charset)"

text \<open>
  The innermost \<open>try\<close> block of \<open>fetchAndSaveResponse\<close>, from \<open>deflatePromise(text)\<close> to
  \<open>setFeedHtmlContent\<close>: the exception it ends with if any, the response with the fields
  assigned up to that point, and the world. A failure of the upload to the object file
  storage is caught and logged on the spot.
\<close>

definition saveToCache ::
  "(string \<Rightarrow> string) \<Rightarrow> fetchEnv \<Rightarrow> string \<Rightarrow> options option \<Rightarrow> string \<Rightarrow> Response \<Rightarrow> fetcherWorld
     \<Rightarrow> exn option \<times> Response \<times> fetcherWorld" where
  "saveToCache H env u opts text rs w =
     (case deflate env text of
        Inl err \<Rightarrow> (Some err, rs, w)
      | Inr compressedText \<Rightarrow>
          let w1 = w\<lparr>logged := logged w @ [LogDatadog ''saving response'' u (length compressedText)]\<rparr>;
              (rs1, w2) =
                (if (case opts of None \<Rightarrow> False | Some opt \<Rightarrow> saveResponseToObjectStorage opt)
                 then
                   let rs' = rs\<lparr>s3ObjectKey := Some (randomUUID env)\<rparr> in
                   (case uploadFeedHtmlContent env (randomUUID env) compressedText of
                      None \<Rightarrow>
                        (rs', w1\<lparr>objectFileStorage :=
                                   objectFileStorage w1 @ [(randomUUID env, compressedText)]\<rparr>)
                    | Some err \<Rightarrow>
                        (rs', w1\<lparr>logged := logged w1 @
                            [LogError ''Failed to upload feed hmtl content to object file storage'']\<rparr>))
                 else (rs, w1));
              key = digest H (update (copy sha1) u);
              rs2 = rs1\<lparr>redisCacheKey := Some key,
                        textHash := Some (if text \<noteq> [] then digest H (update (copy sha1) text) else [])\<rparr>
          in (case setFeedHtmlContent env key compressedText of
                None \<Rightarrow> (None, rs2, w2\<lparr>cacheStorage := cacheStorage w2 @ [(key, compressedText)]\<rparr>)
              | Some err \<Rightarrow> (Some err, rs2, w2)))"

text \<open>
  The \<open>try\<close> block around it, from the decoding of the body on: the text, the status of
  the request, the response and the world when the block is left. \<open>st\<close> is the status the
  request has when the block is entered. The size of the text in megabytes is computed
  there and not used: the check against 3 is commented out.
\<close>

definition decodeAndCache ::
  "(string \<Rightarrow> string) \<Rightarrow> fetchEnv \<Rightarrow> string \<Rightarrow> options option \<Rightarrow> fetchResponse \<Rightarrow> RequestStatus
     \<Rightarrow> Response \<Rightarrow> fetcherWorld \<Rightarrow> responseText \<times> RequestStatus \<times> Response \<times> fetcherWorld" where
  "decodeAndCache H env u opts res st rs w =
     (case (if fr_status res = NOT_MODIFIED then Inr [] else maybeDecodeResponse env res) of
        Inl err \<Rightarrow>
          if isFeedTooLargeException err then (NullText, REFUSED_LARGE_FEED, rs, w)
          else (NullText, PARSE_ERROR, rs,
                w\<lparr>logged := logged w @ [LogDebug (''Failed to parse response text of url '' @ u)]\<rparr>)
      | Inr text \<Rightarrow>
          (case saveToCache H env u opts text rs w of
             (None, rs', w') \<Rightarrow> (Text text, st, rs', w')
           | (Some err, rs', w') \<Rightarrow>
               if isFeedTooLargeException err then (Text text, REFUSED_LARGE_FEED, rs', w')
               else (Text text, st, rs',
                     w'\<lparr>logged := logged w' @
                        [LogError (''Failed to upload feed html content for url '' @ u @ '' to cache'')]\<rparr>)))"

text \<open>
  The rest of the outer \<open>try\<close> block of \<open>fetchAndSaveResponse\<close>, entered with the
  request \<open>rq\<close> once \<open>fetchFeedResponse\<close> has resolved with \<open>res\<close>: the result returned
  and the world.
\<close>

definition tryBlock ::
  "(string \<Rightarrow> string) \<Rightarrow> fetchEnv \<Rightarrow> string \<Rightarrow> options option \<Rightarrow> Request \<Rightarrow> fetchResponse
     \<Rightarrow> fetcherWorld \<Rightarrow> fetchResult \<times> fetcherWorld" where
  "tryBlock H env u opts rq res w =
     (let st = (if ok res \<or> fr_status res = NOT_MODIFIED then OK else BAD_STATUS_CODE);
          etag = fr_headers res ''etag'';
          lastModified = fr_headers res ''last-modified'';
          rs = \<lparr>rs_createdAt = rq_createdAt rq, statusCode = fr_status res,
                rs_headers =
                  \<lparr>etag = (if etag = None \<or> etag = Some [] then None else etag),
                   lastModified = (if lastModified = None \<or> lastModified = Some []
                                   then None else lastModified)\<rparr>,
                textHash = None, redisCacheKey = None, s3ObjectKey = None,
                isCloudflare = None\<rparr>
      in case decodeAndCache H env u opts res st rs w of
           (text, st', rs', w') \<Rightarrow>
             let isCloudflareServer =
                   (case fr_headers res ''server'' of
                      None \<Rightarrow> False
                    | Some s \<Rightarrow> includesStr s ''cloudflare'');
                 rs'' = rs'\<lparr>isCloudflare := Some isCloudflareServer\<rparr>;
                 rq' = rq\<lparr>status := Some st', response := Some rs''\<rparr>
             in (\<lparr>request = rq', responseText = text\<rparr>,
                 w'\<lparr>responseRepo := responseRepo w' @ [rs''],
                    requestRepo := requestRepo w' @ [rq']\<rparr>))"

text \<open>The outer \<open>catch\<close> block, entered when \<open>fetchFeedResponse\<close> has rejected with
  \<open>err\<close>.\<close>

definition catchBlock :: "string \<Rightarrow> Request \<Rightarrow> exn \<Rightarrow> fetcherWorld \<Rightarrow> fetchResult \<times> fetcherWorld" where
  "catchBlock u rq err w =
     (let w1 = w\<lparr>logged := logged w @ [LogDebug (''Failed to fetch url '' @ u)]\<rparr>;
          rq' = rq\<lparr>status := Some (if isRequestTimeout err then FETCH_TIMEOUT else FETCH_ERROR),
                    errorMessage := Some (message err)\<rparr>
      in (\<lparr>request = rq', responseText = NoText\<rparr>,
          w1\<lparr>requestRepo := requestRepo w1 @ [rq']\<rparr>))"

text \<open>The \<open>finally\<close> block, run with the result \<open>r\<close> that is about to be returned: an
  exception of \<open>flush\<close> replaces the result (\<open>Inl err\<close>: the promise is rejected with
  \<open>err\<close>).\<close>

definition finallyBlock ::
  "fetchEnv \<Rightarrow> options option \<Rightarrow> fetchResult \<times> fetcherWorld \<Rightarrow> (exn + fetchResult) \<times> fetcherWorld" where
  "finallyBlock env opts r =
     (if (case opts of None \<Rightarrow> False | Some opt \<Rightarrow> flushEntities opt)
      then (case flush env of
              Some err \<Rightarrow> (Inl err, snd r)
            | None \<Rightarrow> (Inr (fst r), (snd r)\<lparr>flushed := Suc (flushed (snd r))\<rparr>))
      else (Inr (fst r), snd r))"

definition fetchAndSaveResponse ::
  "(string \<Rightarrow> string) \<Rightarrow> fetchEnv \<Rightarrow> string \<Rightarrow> options option \<Rightarrow> fetcherWorld
     \<Rightarrow> (exn + fetchResult) \<times> fetcherWorld" where
  "fetchAndSaveResponse H env u opts w =
     (let fo = \<lparr>userAgent = feedUserAgent env,
                fo_headers = (case opts of None \<Rightarrow> None | Some opt \<Rightarrow> opt_headers opt)\<rparr>;
          rq = \<lparr>rq_url = u, rq_createdAt = newDate env, status = None, errorMessage = None,
                fetchOptions = fo\<lparr>fo_headers := trimHeadersForStorage (fo_headers fo)\<rparr>,
                response = None\<rparr>
      in finallyBlock env opts
           (case fetchFeedResponse env u fo of
              Inr res \<Rightarrow> tryBlock H env u opts rq res w
            | Inl err \<Rightarrow> catchBlock u rq err w))"

text \<open>
  \<open>getLatestRequest\<close>: the request of the url with the greatest \<open>createdAt\<close> among those
  whose response has another status than 304 (the last persisted of them when several have
  that date), with the text that the cache holds under the cache key of its response.
\<close>

definition getFeedHtmlContent :: "fetcherWorld \<Rightarrow> string \<Rightarrow> string option" where
  "getFeedHtmlContent w key = map_of (rev (cacheStorage w)) key"

definition findLatest :: "string \<Rightarrow> Request list \<Rightarrow> Request option" where
  "findLatest u rqs =
     foldl (\<lambda>best r.
              if rq_url r = u \<and> (case response r of None \<Rightarrow> False | Some rs \<Rightarrow> statusCode rs \<noteq> NOT_MODIFIED)
                 \<and> (case best of None \<Rightarrow> True | Some b \<Rightarrow> rq_createdAt b \<le> rq_createdAt r)
              then Some r else best)
       None rqs"

definition getLatestRequest :: "fetchEnv \<Rightarrow> string \<Rightarrow> fetcherWorld \<Rightarrow> (Request \<times> string) option" where
  "getLatestRequest env u w =
     (case findLatest u (requestRepo w) of
        None \<Rightarrow> None
      | Some rq \<Rightarrow>
          (case response rq of
             None \<Rightarrow> Some (rq, [])
           | Some rs \<Rightarrow>
               (case redisCacheKey rs of
                  None \<Rightarrow> Some (rq, [])
                | Some cacheKey \<Rightarrow>
                    (case getFeedHtmlContent w cacheKey of
                       None \<Rightarrow> Some (rq, [])
                     | Some compressedText \<Rightarrow>
                         Some (rq, if compressedText = [] then [] else inflate env compressedText)))))"

subsection \<open>Notions used to state the properties of the fetcher\<close>

text \<open>\<open>Buffer.byteLength(text) / 1024 / 1024 > 3\<close>, the size ceiling of the commented-out
  check.\<close>

definition exceedsSizeCeiling :: "string \<Rightarrow> bool" where
  "exceedsSizeCeiling text = (3 * 1024 * 1024 < length text)"

text \<open>The outcome of the \<open>fetch\<close> of a call, the request as it is created before the
  \<open>try\<close> block, the text of a response (empty for 304 Not Modified, decoded otherwise), the
  status that the HTTP status gives, and the exception of the \<open>finally\<close> block if any.\<close>

definition fetched :: "fetchEnv \<Rightarrow> string \<Rightarrow> options option \<Rightarrow> exn + fetchResponse" where
  "fetched env u opts =
     fetchFeedResponse env u
       \<lparr>userAgent = feedUserAgent env,
        fo_headers = (case opts of None \<Rightarrow> None | Some opt \<Rightarrow> opt_headers opt)\<rparr>"

definition newRequest :: "fetchEnv \<Rightarrow> string \<Rightarrow> options option \<Rightarrow> Request" where
  "newRequest env u opts =
     \<lparr>rq_url = u, rq_createdAt = newDate env, status = None, errorMessage = None,
      fetchOptions =
        \<lparr>userAgent = feedUserAgent env,
         fo_headers = trimHeadersForStorage (case opts of None \<Rightarrow> None | Some opt \<Rightarrow> opt_headers opt)\<rparr>,
      response = None\<rparr>"

definition decoded :: "fetchEnv \<Rightarrow> fetchResponse \<Rightarrow> exn + string" where
  "decoded env res = (if fr_status res = NOT_MODIFIED then Inr [] else maybeDecodeResponse env res)"

definition statusOfResponse :: "fetchResponse \<Rightarrow> RequestStatus" where
  "statusOfResponse res = (if ok res \<or> fr_status res = NOT_MODIFIED then OK else BAD_STATUS_CODE)"

definition flushException :: "fetchEnv \<Rightarrow> options option \<Rightarrow> exn option" where
  "flushException env opts =
     (case opts of None \<Rightarrow> None | Some opt \<Rightarrow> if flushEntities opt then flush env else None)"

text \<open>The response entity as it is filled in before the body is decoded.\<close>

definition newResponse :: "nat \<Rightarrow> fetchResponse \<Rightarrow> Response" where
  "newResponse t res =
     \<lparr>rs_createdAt = t, statusCode = fr_status res,
      rs_headers =
        \<lparr>etag = (if fr_headers res ''etag'' = None \<or> fr_headers res ''etag'' = Some []
                 then None else fr_headers res ''etag''),
         lastModified = (if fr_headers res ''last-modified'' = None
                           \<or> fr_headers res ''last-modified'' = Some []
                         then None else fr_headers res ''last-modified'')\<rparr>,
      textHash = None, redisCacheKey = None, s3ObjectKey = None, isCloudflare = None\<rparr>"

subsection \<open>Auxiliary functions of the proofs about the fetcher\<close>

text \<open>For a call whose fetch resolves with \<open>res\<close>: the outcome of the decoding and caching
  step, and the response and the request that the call persists.\<close>

definition decodeStep ::
  "(string \<Rightarrow> string) \<Rightarrow> fetchEnv \<Rightarrow> string \<Rightarrow> options option \<Rightarrow> fetchResponse \<Rightarrow> fetcherWorld
     \<Rightarrow> responseText \<times> RequestStatus \<times> Response \<times> fetcherWorld" where
  "decodeStep H env u opts res w =
     decodeAndCache H env u opts res (statusOfResponse res) (newResponse (newDate env) res) w"

definition persistedResponse ::
  "(string \<Rightarrow> string) \<Rightarrow> fetchEnv \<Rightarrow> string \<Rightarrow> options option \<Rightarrow> fetchResponse \<Rightarrow> fetcherWorld
     \<Rightarrow> Response" where
  "persistedResponse H env u opts res w =
     (fst (snd (snd (decodeStep H env u opts res w))))
       \<lparr>isCloudflare := Some (case fr_headers res ''server'' of
                                None \<Rightarrow> False
                              | Some s \<Rightarrow> includesStr s ''cloudflare'')\<rparr>"

definition persistedRequest ::
  "(string \<Rightarrow> string) \<Rightarrow> fetchEnv \<Rightarrow> string \<Rightarrow> options option \<Rightarrow> fetchResponse \<Rightarrow> fetcherWorld
     \<Rightarrow> Request" where
  "persistedRequest H env u opts res w =
     (newRequest env u opts)
       \<lparr>status := Some (fst (snd (decodeStep H env u opts res w))),
        response := Some (persistedResponse H env u opts res w)\<rparr>"

subsection \<open>Example inputs of the fetcher\<close>

text \<open>A stand-in for the digest function, a url, the empty world, and collaborators that
  answer 200 with a small feed and accept every write.\<close>

definition H0 :: "string \<Rightarrow> string" where
  "H0 s = ''sha1:'' @ s"

definition url0 :: string where
  "url0 = ''https://example.com/feed.xml''"

definition fw0 :: fetcherWorld where
  "fw0 = \<lparr>cacheStorage = [], objectFileStorage = [], responseRepo = [], requestRepo = [],
          flushed = 0, logged = []\<rparr>"

definition res0 :: fetchResponse where
  "res0 = \<lparr>fr_status = 200, fr_headers = (\<lambda>n. None)\<rparr>"

definition env0 :: fetchEnv where
  "env0 = \<lparr>feedUserAgent = None, defaultUserAgent = ''MonitoRSS'', newDate = 1,
     fetch = (\<lambda>u hs. Inr \<lparr>fr_status = 200, fr_headers = (\<lambda>n. None)\<rparr>),
     resText = (\<lambda>r. Inr ''<rss/>''), iconvDecode = (\<lambda>r c. Inr ''''),
     deflate = (\<lambda>t. Inr (''z:'' @ t)), inflate = drop 2, randomUUID = ''uuid-1'',
     uploadFeedHtmlContent = (\<lambda>k b. None), setFeedHtmlContent = (\<lambda>k b. None), flush = None\<rparr>"

definition optsAll :: "options option" where
  "optsAll = Some \<lparr>flushEntities = True, saveResponseToObjectStorage = True, opt_headers = None\<rparr>"

text \<open>The server answers 304 Not Modified.\<close>

definition envNotModified :: fetchEnv where
  "envNotModified = env0\<lparr>newDate := 2,
     fetch := (\<lambda>u hs. Inr \<lparr>fr_status = 304, fr_headers = (\<lambda>n. None)\<rparr>)\<rparr>"

text \<open>The fetch times out and the database rejects the flush.\<close>

definition envTimeout :: fetchEnv where
  "envTimeout = env0\<lparr>fetch := (\<lambda>u hs. Inl (FetchError ''request-timeout'' ''network timeout'')),
     flush := Some (Error ''Connection terminated'')\<rparr>"

text \<open>The body has 3 MB and one byte.\<close>

definition bigText :: string where
  "bigText = replicate 3145729 (CHR ''a'')"

definition envBig :: fetchEnv where
  "envBig = env0\<lparr>resText := (\<lambda>r. Inr bigText)\<rparr>"

text \<open>The cache store rejects every write; the compression throws
  \<open>FeedTooLargeException\<close>.\<close>

definition envCacheDown :: fetchEnv where
  "envCacheDown = env0\<lparr>setFeedHtmlContent := (\<lambda>k b. Some (Error ''ECONNREFUSED''))\<rparr>"

definition envTooLarge :: fetchEnv where
  "envTooLarge = env0\<lparr>deflate := (\<lambda>t. Inl (FeedTooLargeException ''Response body is too large''))\<rparr>"

text \<open>The cache store rejects every write and the database rejects the flush.\<close>

definition envCacheDownNoFlush :: fetchEnv where
  "envCacheDownNoFlush = envCacheDown\<lparr>flush := Some (Error ''Connection terminated'')\<rparr>"

text \<open>The server names no charset after \<open>charset\<close> in its \<open>content-type\<close>, so the decoding
  throws.\<close>

definition resBadCharset :: fetchResponse where
  "resBadCharset =
     \<lparr>fr_status = 200,
      fr_headers = (\<lambda>n. if n = ''content-type'' then Some ''text/xml; charset'' else None)\<rparr>"

definition envBadCharset :: fetchEnv where
  "envBadCharset = env0\<lparr>newDate := 3, fetch := (\<lambda>u hs. Inr resBadCharset)\<rparr>"

text \<open>The world after a fetch answered with 200, and after a second fetch of the same url
  answered with 304.\<close>

definition fwAfterOk :: fetcherWorld where
  "fwAfterOk = snd (fetchAndSaveResponse H0 env0 url0 None fw0)"

definition fwAfterNotModified :: fetcherWorld where
  "fwAfterNotModified = snd (fetchAndSaveResponse H0 envNotModified url0 optsAll fwAfterOk)"

section \<open>DiscordMediumService\<close>

subsection \<open>Data\<close>

text \<open>
  The delivery settings of a medium. A property that may be absent is an option; \<open>None\<close>
  stands for \<open>undefined\<close> and for \<open>null\<close>.
\<close>

record channel =
  ch_id :: string

record webhook =
  wh_id :: string
  wh_token :: string
  wh_name :: "string option"
  wh_iconUrl :: "string option"

record embedAuthor =
  ea_name :: "string option"
  ea_iconUrl :: "string option"

record embedFooter =
  ef_text :: "string option"
  ef_iconUrl :: "string option"

record embedImage =
  ei_url :: "string option"

record embedField =
  fd_name :: "string option"
  fd_value :: "string option"
  fd_inline :: "bool option"

record embed =
  e_title :: "string option"
  e_description :: "string option"
  e_author :: "embedAuthor option"
  e_color :: "nat option"
  e_footer :: "embedFooter option"
  e_image :: "embedImage option"
  e_thumbnail :: "embedImage option"
  e_url :: "string option"
  e_fields :: "embedField list option"
  e_timestamp :: "string option"

record splitOptions =
  so_splitChar :: "string option"
  so_appendChar :: "string option"
  so_prependChar :: "string option"

record deliverySettings =
  guildId :: string
  channel :: "channel option"
  webhook :: "webhook option"
  content :: "string option"
  embeds :: "embed list option"

record feedDetails =
  fd_id :: string
  fd_url :: string

record deliveryDetails =
  deliveryId :: string
  mediumId :: string
  deliverySettings :: deliverySettings
  feedDetails :: feedDetails

text \<open>An article: its flattened properties (\<open>id\<close> among them) and the date of the raw
  article in ISO format, if it has one.\<close>

record article =
  flattened :: "(string \<times> string) list"
  rawDate :: "string option"

text \<open>The message payload of the Discord API.\<close>

record payloadAuthor =
  pa_name :: "string option"
  pa_icon_url :: "string option"

record payloadFooter =
  pf_text :: "string option"
  pf_icon_url :: "string option"

record payloadImage =
  pi_url :: "string option"

record payloadField =
  pfd_name :: "string option"
  pfd_value :: "string option"
  pfd_inline :: "bool option"

record payloadEmbed =
  pe_title :: "string option"
  pe_description :: "string option"
  pe_author :: "payloadAuthor option"
  pe_color :: "nat option"
  pe_footer :: "payloadFooter option"
  pe_image :: "payloadImage option"
  pe_thumbnail :: "payloadImage option"
  pe_url :: "string option"
  pe_fields :: "payloadField list option"
  pe_timestamp :: "string option"

record payload =
  p_content :: string
  p_embeds :: "payloadEmbed list option"

text \<open>One call of \<open>producer.enqueue(url, { method, body }, meta)\<close>.\<close>

record jobMeta =
  jm_id :: string
  jm_articleID :: "string option"
  jm_feedURL :: string
  jm_channel :: "string option"
  jm_webhookId :: "string option"
  jm_feedId :: string
  jm_guildId :: string
  jm_emitDeliveryResult :: bool

record enqueueCall =
  q_url :: string
  q_method :: string
  q_body :: string
  q_meta :: jobMeta

datatype ArticleDeliveryStatus = Failed | PendingDelivery

datatype ArticleDeliveryErrorCode = NoChannelOrWebhook | Internal

record ArticleDeliveryState =
  ds_id :: string
  ds_mediumId :: string
  ds_status :: ArticleDeliveryStatus
  ds_errorCode :: "ArticleDeliveryErrorCode option"
  ds_internalMessage :: "string option"

text \<open>The error that \<open>deliverArticle\<close> logs: the id of the article, the webhook and the
  channel of the settings, and the exception.\<close>

datatype deliveryLog = FailedToDeliver "string option" "webhook option" "channel option" exn

text \<open>The producer and the logger as the calls they have received.\<close>

record deliveryWorld =
  enqueued :: "enqueueCall list"
  errors :: "deliveryLog list"

text \<open>
  The collaborators of the medium: \<open>replaceTemplateString\<close> and
  \<open>articleFormatterService.applySplit\<close>, which are defined in other modules and taken as
  parameters,
  \<open>JSON.stringify\<close> on payloads, the clock (\<open>new Date().toISOString()\<close>), and whether the
  producer rejects a call (\<open>Some err\<close>) or accepts it (\<open>None\<close>).
\<close>

record deliveryEnv =
  replaceTemplateString :: "(string \<times> string) list \<Rightarrow> string option \<Rightarrow> string option"
  applySplit :: "string \<Rightarrow> splitOptions \<Rightarrow> string list"
  stringify :: "payload \<Rightarrow> string"
  nowISO :: string
  enqueue :: "enqueueCall \<Rightarrow> exn option"

subsection \<open>The methods\<close>

definition BASE_API_URL :: string where
  "BASE_API_URL = ''https://discord.com/api/v10''"

definition getChannelApiUrl :: "string \<Rightarrow> string" where
  "getChannelApiUrl channelId = BASE_API_URL @ ''/channels/'' @ channelId @ ''/messages''"

definition getWebhookApiUrl :: "string \<Rightarrow> string \<Rightarrow> string" where
  "getWebhookApiUrl webhookId webhookToken =
     BASE_API_URL @ ''/webhooks/'' @ webhookId @ ''/'' @ webhookToken"

text \<open>\<open>!s\<close> and \<open>s || null\<close> for an optional string.\<close>

fun absent :: "string option \<Rightarrow> bool" where
  "absent None = True"
| "absent (Some s) = (s = [])"

definition orNull :: "string option \<Rightarrow> string option" where
  "orNull s = (if absent s then None else s)"

definition generateEmbed :: "deliveryEnv \<Rightarrow> article \<Rightarrow> embed \<Rightarrow> payloadEmbed" where
  "generateEmbed env a e =
     (let timestamp =
            (if e_timestamp e = Some ''now'' then Some (nowISO env)
             else if e_timestamp e = Some ''article'' then rawDate a
             else None);
          rts = replaceTemplateString env (flattened a)
      in \<lparr>pe_title = rts (e_title e),
          pe_description = rts (e_description e),
          pe_author =
            (case e_author e of
               None \<Rightarrow> None
             | Some au \<Rightarrow>
                 if absent (ea_name au) then None
                 else Some \<lparr>pa_name = rts (ea_name au), pa_icon_url = orNull (rts (ea_iconUrl au))\<rparr>),
          pe_color = e_color e,
          pe_footer =
            (case e_footer e of
               None \<Rightarrow> None
             | Some fo \<Rightarrow>
                 if absent (ef_text fo) then None
                 else Some \<lparr>pf_text = rts (ef_text fo), pf_icon_url = orNull (rts (ef_iconUrl fo))\<rparr>),
          pe_image =
            (case e_image e of
               None \<Rightarrow> None
             | Some im \<Rightarrow>
                 if absent (ei_url im) then None
                 else Some \<lparr>pi_url = orNull (rts (ei_url im))\<rparr>),
          pe_thumbnail =
            (case e_thumbnail e of
               None \<Rightarrow> None
             | Some im \<Rightarrow>
                 if absent (ei_url im) then None
                 else Some \<lparr>pi_url = orNull (rts (ei_url im))\<rparr>),
          pe_url = orNull (rts (e_url e)),
          pe_fields =
            (case e_fields e of
               None \<Rightarrow> None
             | Some fs \<Rightarrow>
                 Some (map (\<lambda>f. \<lparr>pfd_name = rts (fd_name f), pfd_value = rts (fd_value f),
                                  pfd_inline = fd_inline f\<rparr>)
                        (filter (\<lambda>f. \<not> absent (fd_name f) \<and> \<not> absent (fd_value f)) fs))),
          pe_timestamp = timestamp\<rparr>)"

definition generateApiPayloads ::
  "deliveryEnv \<Rightarrow> article \<Rightarrow> embed list option \<Rightarrow> string option \<Rightarrow> splitOptions option \<Rightarrow> payload list" where
  "generateApiPayloads env a es c sopts =
     (let content0 =
            (case orNull (replaceTemplateString env (flattened a) c) of None \<Rightarrow> [] | Some s \<Rightarrow> s);
          payloadContent =
            (case sopts of
               None \<Rightarrow> [content0]
             | Some so \<Rightarrow> applySplit env content0 so)
      in map (\<lambda>contentPart.
                \<lparr>p_content = contentPart,
                 p_embeds = (case es of None \<Rightarrow> None | Some l \<Rightarrow> Some (map (generateEmbed env a) l))\<rparr>)
           payloadContent)"

text \<open>
  \<open>await Promise.all(bodies.map((body) => this.producer.enqueue(...)))\<close>: every call is
  made, in the order of the bodies; the promise rejects when one of them rejects, here with
  the exception of the first such call.
\<close>

definition enqueueAll :: "deliveryEnv \<Rightarrow> enqueueCall list \<Rightarrow> deliveryWorld \<Rightarrow> exn option \<times> deliveryWorld" where
  "enqueueAll env calls w =
     (case List.find (\<lambda>c. enqueue env c \<noteq> None) calls of
        None \<Rightarrow> None
      | Some c \<Rightarrow> enqueue env c,
      w\<lparr>enqueued := enqueued w @ calls\<rparr>)"

definition deliverArticleToChannel ::
  "deliveryEnv \<Rightarrow> article \<Rightarrow> string \<Rightarrow> deliveryDetails \<Rightarrow> deliveryWorld
     \<Rightarrow> (exn + ArticleDeliveryState) \<times> deliveryWorld" where
  "deliverArticleToChannel env a channelId details w =
     (let apiUrl = getChannelApiUrl channelId;
          bodies = generateApiPayloads env a (embeds (deliverySettings details))
                     (content (deliverySettings details)) None;
          calls = map (\<lambda>body.
                    \<lparr>q_url = apiUrl, q_method = ''POST'', q_body = stringify env body,
                     q_meta = \<lparr>jm_id = deliveryId details,
                               jm_articleID = map_of (flattened a) ''id'',
                               jm_feedURL = fd_url (feedDetails details),
                               jm_channel = Some channelId,
                               jm_webhookId = None,
                               jm_feedId = fd_id (feedDetails details),
                               jm_guildId = guildId (deliverySettings details),
                               jm_emitDeliveryResult = True\<rparr>\<rparr>) bodies
      in case enqueueAll env calls w of
           (Some err, w') \<Rightarrow> (Inl err, w')
         | (None, w') \<Rightarrow>
             (Inr \<lparr>ds_id = deliveryId details, ds_mediumId = mediumId details,
                   ds_status = PendingDelivery, ds_errorCode = None, ds_internalMessage = None\<rparr>,
              w'))"

definition deliverArticleToWebhook ::
  "deliveryEnv \<Rightarrow> article \<Rightarrow> webhook \<Rightarrow> deliveryDetails \<Rightarrow> deliveryWorld
     \<Rightarrow> (exn + ArticleDeliveryState) \<times> deliveryWorld" where
  "deliverArticleToWebhook env a wh details w =
     (let apiUrl = getWebhookApiUrl (wh_id wh) (wh_token wh);
          bodies = generateApiPayloads env a (embeds (deliverySettings details))
                     (content (deliverySettings details)) None;
          calls = map (\<lambda>body.
                    \<lparr>q_url = apiUrl, q_method = ''POST'', q_body = stringify env body,
                     q_meta = \<lparr>jm_id = deliveryId details,
                               jm_articleID = map_of (flattened a) ''id'',
                               jm_feedURL = fd_url (feedDetails details),
                               jm_channel = None,
                               jm_webhookId = Some (wh_id wh),
                               jm_feedId = fd_id (feedDetails details),
                               jm_guildId = guildId (deliverySettings details),
                               jm_emitDeliveryResult = True\<rparr>\<rparr>) bodies
      in case enqueueAll env calls w of
           (Some err, w') \<Rightarrow> (Inl err, w')
         | (None, w') \<Rightarrow>
             (Inr \<lparr>ds_id = deliveryId details, ds_mediumId = mediumId details,
                   ds_status = PendingDelivery, ds_errorCode = None, ds_internalMessage = None\<rparr>,
              w'))"

text \<open>
  \<open>deliverArticle\<close>. The third branch of the \<open>try\<close> block, which throws, is taken when
  neither a webhook nor a channel is given; the early return before the \<open>try\<close> block
  covers that case, so the branch is not reached.
\<close>

definition deliverArticle ::
  "deliveryEnv \<Rightarrow> article \<Rightarrow> deliveryDetails \<Rightarrow> deliveryWorld \<Rightarrow> ArticleDeliveryState \<times> deliveryWorld" where
  "deliverArticle env a details w =
     (let ch = channel (deliverySettings details);
          wh = webhook (deliverySettings details)
      in if ch = None \<and> wh = None
         then (\<lparr>ds_id = deliveryId details, ds_mediumId = mediumId details, ds_status = Failed,
                ds_errorCode = Some NoChannelOrWebhook,
                ds_internalMessage = Some ''No channel or webhook specified''\<rparr>, w)
         else
           (case (case wh of
                    Some wh' \<Rightarrow> deliverArticleToWebhook env a wh' details w
                  | None \<Rightarrow>
                      (case ch of
                         Some ch' \<Rightarrow> deliverArticleToChannel env a (ch_id ch') details w
                       | None \<Rightarrow>
                           (Inl (Error ''No channel or webhook specified for Discord medium''), w)))
            of
              (Inr state, w') \<Rightarrow> (state, w')
            | (Inl err, w') \<Rightarrow>
                (\<lparr>ds_id = deliveryId details, ds_mediumId = mediumId details, ds_status = Failed,
                  ds_errorCode = Some Internal, ds_internalMessage = Some (message err)\<rparr>,
                 w'\<lparr>errors := errors w' @
                      [FailedToDeliver (map_of (flattened a) ''id'') wh ch err]\<rparr>)))"

subsection \<open>Notions used to state the properties of the medium\<close>

text \<open>The calls a delivery adds to the producer.\<close>

definition newCalls :: "deliveryWorld \<Rightarrow> deliveryWorld \<Rightarrow> enqueueCall list" where
  "newCalls w w' = drop (length (enqueued w)) (enqueued w')"

text \<open>The call that carries a payload to a webhook.\<close>

definition webhookCall :: "deliveryEnv \<Rightarrow> article \<Rightarrow> webhook \<Rightarrow> deliveryDetails \<Rightarrow> payload \<Rightarrow> enqueueCall" where
  "webhookCall env a wh details body =
     \<lparr>q_url = getWebhookApiUrl (wh_id wh) (wh_token wh), q_method = ''POST'',
      q_body = stringify env body,
      q_meta = \<lparr>jm_id = deliveryId details,
                jm_articleID = map_of (flattened a) ''id'',
                jm_feedURL = fd_url (feedDetails details),
                jm_channel = None,
                jm_webhookId = Some (wh_id wh),
                jm_feedId = fd_id (feedDetails details),
                jm_guildId = guildId (deliverySettings details),
                jm_emitDeliveryResult = True\<rparr>\<rparr>"

text \<open>The calls that carry the payloads of an article to a webhook.\<close>

definition webhookCalls :: "deliveryEnv \<Rightarrow> article \<Rightarrow> webhook \<Rightarrow> deliveryDetails \<Rightarrow> enqueueCall list" where
  "webhookCalls env a wh details =
     map (webhookCall env a wh details)
       (generateApiPayloads env a (embeds (deliverySettings details)) (content (deliverySettings details)) None)"

subsection \<open>Example inputs of the medium\<close>

definition denv0 :: deliveryEnv where
  "denv0 = \<lparr>replaceTemplateString = (\<lambda>fl s. s), applySplit = (\<lambda>s so. [s]),
            stringify = p_content, nowISO = ''2023-01-01T00:00:00.000Z'',
            enqueue = (\<lambda>c. None)\<rparr>"

definition article0 :: article where
  "article0 = \<lparr>flattened = [(''id'', ''article-1''), (''title'', ''Hello'')], rawDate = None\<rparr>"

definition dw0 :: deliveryWorld where
  "dw0 = \<lparr>enqueued = [], errors = []\<rparr>"

definition details0 :: deliveryDetails where
  "details0 =
     \<lparr>deliveryId = ''delivery-1'', mediumId = ''medium-1'',
      deliverySettings =
        \<lparr>guildId = ''guild-1'', channel = None, webhook = None, content = Some ''Hello'',
         embeds = None\<rparr>,
      feedDetails = \<lparr>fd_id = ''feed-1'', fd_url = ''https://example.com/feed.xml''\<rparr>\<rparr>"

definition webhook0 :: webhook where
  "webhook0 = \<lparr>wh_id = ''wh-1'', wh_token = ''token-1'', wh_name = None, wh_iconUrl = None\<rparr>"

definition detailsBoth :: deliveryDetails where
  "detailsBoth =
     details0\<lparr>deliverySettings :=
       (deliverySettings details0)\<lparr>channel := Some \<lparr>ch_id = ''channel-1''\<rparr>, webhook := Some webhook0\<rparr>\<rparr>"

section \<open>Properties of the schedule handler\<close>

subsection \<open>The batching loop\<close>

lemma handlerCalls_append: "handlerCalls (xs @ ys) = handlerCalls xs @ handlerCalls ys"
  by (induction xs rule: handlerCalls.induct) simp_all

lemma urlsLoop_eq:
  "urlsLoop D ds b w = (loopRest D ds b, w\<lparr>trace := trace w @ loopEvents D ds b\<rparr>)"
proof (induction ds arbitrary: b w)
  case Nil
  show ?case by simp
next
  case (Cons d ds)
  show ?case
    by (cases d) (simp_all add: Cons logEvent_def Let_def)
qed

lemma loop_inv:
  "length b < 25 \<Longrightarrow>
   concat (handlerCalls (loopEvents D ds b)) @ loopRest D ds b = b @ dueItems D ds
   \<and> (\<forall>c \<in> set (handlerCalls (loopEvents D ds b)). length c = 25)
   \<and> length (loopRest D ds b) < 25"
proof (induction ds arbitrary: b)
  case Nil
  then show ?case by (simp add: dueItems_def)
next
  case (Cons d ds)
  show ?case
  proof (cases "falsy d")
    case True
    with Cons show ?thesis by (simp add: dueItems_def)
  next
    case False
    let ?b1 = "b @ [\<lparr>url = the d, saveToObjectStorage = (d \<in> D)\<rparr>]"
    show ?thesis
    proof (cases "length ?b1 = 25")
      case True
      from Cons.IH[of "[]"] True False show ?thesis
        by (simp add: dueItems_def Let_def)
    next
      case F2: False
      with Cons.prems have "length ?b1 < 25" by simp
      from Cons.IH[OF this] F2 False show ?thesis
        by (simp add: dueItems_def Let_def)
    qed
  qed
qed

lemma upt_Suc_shift: "[0..<Suc k] = 0 # map Suc [0..<k]"
  by (simp add: upt_conv_Cons map_Suc_upt del: upt_Suc)

lemma chunks_closed_form:
  assumes "\<forall>c \<in> set xss. length c = n" and "0 < n" and "length r < n"
  shows "xss @ (if r = [] then [] else [r]) =
         map (\<lambda>i. take n (drop (n * i) (concat xss @ r)))
             [0..<(length (concat xss @ r) + n - 1) div n]"
  using assms
proof (induction xss)
  case Nil
  show ?case
  proof (cases "r = []")
    case True
    with Nil show ?thesis by simp
  next
    case False
    then have "0 < length r" by simp
    then have "length r + n - 1 = n + (length r - 1)" by arith
    then have "(length r + n - 1) div n = Suc ((length r - 1) div n)"
      using Nil.prems by (simp only: div_add_self1)
    moreover have "(length r - 1) div n = 0" using Nil.prems by simp
    ultimately have "(length r + n - 1) div n = 1" by (simp only:)
    with Nil False show ?thesis by simp
  qed
next
  case (Cons c xss)
  then have lc: "length c = n" by simp
  let ?L = "length (concat xss @ r)"
  have "(length (concat (c # xss) @ r) + n - 1) div n = Suc ((?L + n - 1) div n)"
  proof -
    have "length (concat (c # xss) @ r) + n - 1 = (?L + n - 1) + n"
      using lc Cons.prems by simp
    then show ?thesis using Cons.prems by (simp only: div_add_self2)
  qed
  moreover have "xss @ (if r = [] then [] else [r]) =
         map (\<lambda>i. take n (drop (n * i) (concat xss @ r))) [0..<(?L + n - 1) div n]"
    using Cons by simp
  ultimately show ?case
    using lc by (simp add: upt_Suc_shift comp_def del: upt_Suc)
qed

lemma cursorPulls_append: "cursorPulls (xs @ ys) = cursorPulls xs @ cursorPulls ys"
  by (induction xs rule: cursorPulls.induct) simp_all

lemma cursorPulls_loopEvents: "cursorPulls (loopEvents D ds b) = ds"
  by (induction ds arbitrary: b) (simp_all add: Let_def)

lemma loopEvents_adjacent:
  "length b < 25 \<Longrightarrow> i < length (loopEvents D ds b) \<Longrightarrow> loopEvents D ds b ! i = UrlsHandler c \<Longrightarrow>
   length c = 25 \<and> 0 < i \<and> loopEvents D ds b ! (i - 1) = CursorNext (Some (url (last c)))"
proof (induction ds arbitrary: b i)
  case Nil
  then show ?case by simp
next
  case (Cons d ds)
  show ?case
  proof (cases "falsy d")
    case True
    with Cons.prems obtain j where j: "i = Suc j" by (cases i) auto
    with Cons.prems True have "j < length (loopEvents D ds b)" "loopEvents D ds b ! j = UrlsHandler c"
      by simp_all
    from Cons.IH[OF Cons.prems(1) this] j True show ?thesis
      by (cases j) simp_all
  next
    case False
    then obtain u where d: "d = Some u" "u \<noteq> []" by (cases d) auto
    let ?b1 = "b @ [\<lparr>url = the d, saveToObjectStorage = (d \<in> D)\<rparr>]"
    from Cons.prems False obtain j where j: "i = Suc j" by (cases i) auto
    show ?thesis
    proof (cases "length ?b1 = 25")
      case True
      show ?thesis
      proof (cases j)
        case 0
        with j True False Cons.prems d show ?thesis by (auto simp: Let_def)
      next
        case (Suc k)
        with j True False Cons.prems have "k < length (loopEvents D ds [])" "loopEvents D ds [] ! k = UrlsHandler c"
          by (simp_all add: Let_def)
        from Cons.IH[OF _ this] j Suc True False show ?thesis
          by (cases k) (simp_all add: Let_def)
      qed
    next
      case F2: False
      with Cons.prems have lt: "length ?b1 < 25" by simp
      from j F2 False Cons.prems have "j < length (loopEvents D ds ?b1)" "loopEvents D ds ?b1 ! j = UrlsHandler c"
        by (simp_all add: Let_def)
      from Cons.IH[OF lt this] j F2 False show ?thesis
        by (cases j) (simp_all add: Let_def)
    qed
  qed
qed

lemma dispatchUrls_events:
  "newEvents w (dispatchUrls D ds w) =
     loopEvents D ds [] @ (if loopRest D ds [] = [] then [] else [UrlsHandler (loopRest D ds [])])"
  by (simp add: dispatchUrls_def urlsLoop_eq newEvents_def logEvent_def)

subsection \<open>The synchronisations\<close>

lemma getField_setField [simp]: "getField fld (setField fld v d) = Some v"
  by (cases fld) simp_all

lemma owner_setField [simp]: "uf_discordUserId (setField fld v d) = uf_discordUserId d"
  by (cases fld) simp_all

lemma store_updateMany: "store (updateMany f fld v w) = map (updateDoc f fld v) (store w)"
  by (simp add: updateMany_def updateDoc_def)

lemma trace_updateMany:
  "trace (updateMany f fld v w) = trace w @ [UpdateMany f fld v (length (filter (matches f fld v) (store w)))]"
  by (simp add: updateMany_def)



lemma members_addSupporter: "members (addSupporter k u m) = insert (k, u) (members m)"
  by (induction m) (auto split: if_splits)

lemma members_foldl:
  "members (foldl (\<lambda>m s. addSupporter (key s) (discordUserId s) m) m0 vs) =
   (\<lambda>s. (key s, discordUserId s)) ` set vs \<union> members m0"
  by (induction vs arbitrary: m0) (auto simp: members_addSupporter)

lemma members_groupSupporters:
  "members (groupSupporters key vs) = (\<lambda>s. (key s, discordUserId s)) ` set vs"
  by (simp add: groupSupporters_def members_foldl)

lemma set_concat_snd: "set (concat (map snd m)) = snd ` members m"
  by (induction m) (auto simp: image_Un image_image)



lemma store_groupUpdates:
  "store (groupUpdates fld entries w) =
   map (\<lambda>d. foldl (\<lambda>d (v, ids). updateDoc (In ids) fld v d) d entries) (store w)"
  unfolding groupUpdates_def
  by (induction entries arbitrary: w) (auto simp: store_updateMany)

lemma owner_updateDoc [simp]: "uf_discordUserId (updateDoc f fld v d) = uf_discordUserId d"
  by (simp add: updateDoc_def)

lemma doc_groupUpdates:
  assumes "\<forall>k. (k, uf_discordUserId d) \<in> members entries \<longrightarrow> k = r"
  shows "getField fld (foldl (\<lambda>d (v, ids). updateDoc (In ids) fld v d) d entries) =
         (if \<exists>k. (k, uf_discordUserId d) \<in> members entries then Some r else getField fld d)"
  using assms
proof (induction entries arbitrary: d)
  case Nil
  show ?case by simp
next
  case (Cons e entries)
  obtain v ids where e: "e = (v, ids)" by (cases e)
  let ?d1 = "updateDoc (In ids) fld v d"
  have own: "uf_discordUserId ?d1 = uf_discordUserId d" by simp
  have "\<forall>k. (k, uf_discordUserId ?d1) \<in> members entries \<longrightarrow> k = r"
    using Cons.prems e by auto
  from Cons.IH[OF this]
  have IH: "getField fld (foldl (\<lambda>d (v, ids). updateDoc (In ids) fld v d) ?d1 entries) =
         (if \<exists>k. (k, uf_discordUserId d) \<in> members entries then Some r else getField fld ?d1)"
    by (simp only: own)
  show ?case
  proof (cases "uf_discordUserId d \<in> set ids")
    case True
    then have "v = r" using Cons.prems e by auto
    then have "getField fld ?d1 = Some r" using True by (auto simp: updateDoc_def matches_def)
    with IH True e show ?thesis by auto
  next
    case False
    then have "?d1 = d" by (simp add: updateDoc_def matches_def)
    with IH False e show ?thesis by auto
  qed
qed

lemma owner_foldl_updateDoc [simp]:
  "uf_discordUserId (foldl (\<lambda>d (v, ids). updateDoc (In ids) fld v d) d entries) = uf_discordUserId d"
  by (induction entries arbitrary: d) auto

lemma in_members: "(v, ids) \<in> set m \<Longrightarrow> u \<in> set ids \<Longrightarrow> (v, u) \<in> members m"
  by (induction m) auto

lemma special_iff: "u \<in> set (concat (map snd m)) \<longleftrightarrow> (\<exists>k. (k, u) \<in> members m)"
  unfolding set_concat_snd by force

lemma entitled_supporter:
  assumes "oneValuePerSupporter key bs" "s \<in> set bs" "isSupporter s"
  shows "entitledValue key dflt bs (discordUserId s) = key s"
proof (cases "find (\<lambda>b. isSupporter b \<and> discordUserId b = discordUserId s) bs")
  case None
  with assms(2,3) show ?thesis by (auto simp: find_None_iff)
next
  case (Some b)
  then have "b \<in> set bs" "isSupporter b" "discordUserId b = discordUserId s"
    by (auto simp: find_Some_iff)
  with assms have "key b = key s" unfolding oneValuePerSupporter_def by blast
  with Some show ?thesis by (simp add: entitledValue_def)
qed

lemma entitled_other:
  assumes "\<forall>s \<in> set bs. isSupporter s \<longrightarrow> discordUserId s \<noteq> u"
  shows "entitledValue key dflt bs u = dflt"
proof -
  have "find (\<lambda>b. isSupporter b \<and> discordUserId b = u) bs = None"
    using assms by (auto simp: find_None_iff)
  then show ?thesis by (simp add: entitledValue_def)
qed

lemma syncField_eq:
  "syncField fld key dflt bs w =
     updateMany (Nin (concat (map snd (groupSupporters key (filter isSupporter bs))))) fld dflt
       (groupUpdates fld (groupSupporters key (filter isSupporter bs)) w)"
  by (simp add: syncField_def groupUpdates_def Let_def)

lemma members_valid:
  "(k, u) \<in> members (groupSupporters key (filter isSupporter bs)) \<longleftrightarrow>
   (\<exists>s \<in> set bs. isSupporter s \<and> key s = k \<and> discordUserId s = u)"
  by (auto simp: members_groupSupporters)

lemma syncField_converges:
  assumes H: "oneValuePerSupporter key bs"
    and d': "d' \<in> set (store (syncField fld key dflt bs w))"
  shows "getField fld d' = Some (entitledValue key dflt bs (uf_discordUserId d'))"
proof -
  let ?entries = "groupSupporters key (filter isSupporter bs)"
  let ?special = "concat (map snd ?entries)"
  from d' obtain d where d: "d \<in> set (store w)"
    and d'eq: "d' = updateDoc (Nin ?special) fld dflt (foldl (\<lambda>d (v, ids). updateDoc (In ids) fld v d) d ?entries)"
    by (auto simp: syncField_eq store_updateMany store_groupUpdates)
  let ?d1 = "foldl (\<lambda>d (v, ids). updateDoc (In ids) fld v d) d ?entries"
  let ?u = "uf_discordUserId d"
  have own: "uf_discordUserId d' = ?u" by (simp add: d'eq)
  have own1: "uf_discordUserId ?d1 = ?u" by simp
  show ?thesis
  proof (cases "\<exists>s \<in> set bs. isSupporter s \<and> discordUserId s = ?u")
    case True
    then obtain s where s: "s \<in> set bs" "isSupporter s" "discordUserId s = ?u" by blast
    have ent: "entitledValue key dflt bs ?u = key s"
      using entitled_supporter[OF H s(1,2)] s(3) by simp
    have uniq: "\<forall>k. (k, ?u) \<in> members ?entries \<longrightarrow> k = key s"
    proof (intro allI impI)
      fix k assume "(k, ?u) \<in> members ?entries"
      then obtain t where "t \<in> set bs" "isSupporter t" "key t = k" "discordUserId t = ?u"
        by (auto simp: members_valid)
      with H s show "k = key s" unfolding oneValuePerSupporter_def by metis
    qed
    have ex: "\<exists>k. (k, ?u) \<in> members ?entries"
      using s by (auto simp: members_valid)
    have f1: "getField fld ?d1 = Some (key s)"
      using doc_groupUpdates[OF uniq, of fld] ex by simp
    have "?u \<in> set ?special" using ex by (simp only: special_iff)
    with own1 have "\<not> matches (Nin ?special) fld dflt ?d1" by (simp only: matches_def idMatches.simps) simp
    then have "d' = ?d1" unfolding d'eq by (simp only: updateDoc_def if_False)
    with f1 ent own show ?thesis by simp
  next
    case False
    then have ent: "entitledValue key dflt bs ?u = dflt"
      by (intro entitled_other) auto
    have nospecial: "?u \<notin> set ?special"
      using False unfolding special_iff by (auto simp: members_valid)
    with own1 have m: "matches (Nin ?special) fld dflt ?d1 \<longleftrightarrow> getField fld ?d1 \<noteq> Some dflt"
      by (simp only: matches_def idMatches.simps) simp
    have "getField fld d' = Some dflt"
    proof (cases "getField fld ?d1 = Some dflt")
      case True
      with m have "d' = ?d1" unfolding d'eq by (simp only: updateDoc_def) simp
      with True show ?thesis by simp
    next
      case False
      with m have "d' = setField fld dflt ?d1" unfolding d'eq by (simp only: updateDoc_def) simp
      then show ?thesis by simp
    qed
    with ent own show ?thesis by simp
  qed
qed

lemma updateMany_noop:
  assumes "\<forall>d \<in> set (store w). \<not> matches f fld v d"
  shows "updateMany f fld v w = w\<lparr>trace := trace w @ [UpdateMany f fld v 0]\<rparr>"
proof -
  have "map (\<lambda>d. if matches f fld v d then setField fld v d else d) (store w) = store w"
    using assms by (induction "store w") (auto simp: map_idI)
  moreover have "filter (matches f fld v) (store w) = []"
    using assms by (auto simp: filter_empty_conv)
  ultimately show ?thesis by (simp add: updateMany_def)
qed

lemma groupUpdates_noop:
  assumes "\<forall>(v, ids) \<in> set es. \<forall>d \<in> set (store w). uf_discordUserId d \<in> set ids \<longrightarrow> getField fld d = Some v"
  shows "groupUpdates fld es w = w\<lparr>trace := trace w @ map (\<lambda>(v, ids). UpdateMany (In ids) fld v 0) es\<rparr>"
  using assms
proof (induction es arbitrary: w)
  case Nil
  show ?case by (simp add: groupUpdates_def)
next
  case (Cons e es)
  obtain v ids where e: "e = (v, ids)" by (cases e)
  have "\<forall>d \<in> set (store w). \<not> matches (In ids) fld v d"
    using Cons.prems e by (auto simp: matches_def)
  from updateMany_noop[OF this]
  have u: "updateMany (In ids) fld v w = w\<lparr>trace := trace w @ [UpdateMany (In ids) fld v 0]\<rparr>" .
  have "groupUpdates fld (e # es) w = groupUpdates fld es (updateMany (In ids) fld v w)"
    by (simp add: groupUpdates_def e)
  also have "\<dots> = groupUpdates fld es (w\<lparr>trace := trace w @ [UpdateMany (In ids) fld v 0]\<rparr>)"
    by (simp only: u)
  also have "\<dots> = (w\<lparr>trace := trace w @ [UpdateMany (In ids) fld v 0]\<rparr>)
       \<lparr>trace := trace (w\<lparr>trace := trace w @ [UpdateMany (In ids) fld v 0]\<rparr>) @ map (\<lambda>(v, ids). UpdateMany (In ids) fld v 0) es\<rparr>"
    using Cons.prems by (intro Cons.IH) auto
  finally show ?case by (simp add: e)
qed

lemma syncField_fixpoint:
  assumes H: "oneValuePerSupporter key bs"
    and conv: "\<forall>d \<in> set (store w). getField fld d = Some (entitledValue key dflt bs (uf_discordUserId d))"
  shows "store (syncField fld key dflt bs w) = store w \<and>
         (\<forall>e \<in> set (newEvents w (syncField fld key dflt bs w)). writes e = 0)"
proof -
  let ?entries = "groupSupporters key (filter isSupporter bs)"
  let ?special = "concat (map snd ?entries)"
  have grp: "\<forall>(v, ids) \<in> set ?entries. \<forall>d \<in> set (store w). uf_discordUserId d \<in> set ids \<longrightarrow> getField fld d = Some v"
  proof (clarify)
    fix v ids d assume a: "(v, ids) \<in> set ?entries" "d \<in> set (store w)" "uf_discordUserId d \<in> set ids"
    from in_members[OF a(1,3)] obtain s where s: "s \<in> set bs" "isSupporter s" "key s = v"
      "discordUserId s = uf_discordUserId d"
      by (auto simp: members_valid)
    from entitled_supporter[OF H s(1,2), of dflt] s conv a(2)
    show "getField fld d = Some v" by simp
  qed
  let ?w1 = "w\<lparr>trace := trace w @ map (\<lambda>(v, ids). UpdateMany (In ids) fld v 0) ?entries\<rparr>"
  have g: "groupUpdates fld ?entries w = ?w1" by (rule groupUpdates_noop[OF grp])
  have "\<forall>d \<in> set (store ?w1). \<not> matches (Nin ?special) fld dflt d"
  proof
    fix d assume "d \<in> set (store ?w1)"
    then have d: "d \<in> set (store w)" by simp
    show "\<not> matches (Nin ?special) fld dflt d"
    proof (cases "uf_discordUserId d \<in> set ?special")
      case True
      then show ?thesis by (simp add: matches_def)
    next
      case False
      then have "\<forall>s \<in> set bs. isSupporter s \<longrightarrow> discordUserId s \<noteq> uf_discordUserId d"
        unfolding special_iff by (auto simp: members_valid)
      from entitled_other[OF this, of key dflt] conv d show ?thesis
        by (simp add: matches_def)
    qed
  qed
  from updateMany_noop[OF this]
  have "syncField fld key dflt bs w = ?w1\<lparr>trace := trace ?w1 @ [UpdateMany (Nin ?special) fld dflt 0]\<rparr>"
    by (simp only: syncField_eq g)
  then show ?thesis
    by (auto simp: newEvents_def)
qed

lemma trace_logEvent: "trace (logEvent e w) = trace w @ [e]"
  by (simp add: logEvent_def)

lemma store_logEvent: "store (logEvent e w) = store w"
  by (simp add: logEvent_def)

lemma owners_updateMany:
  "map uf_discordUserId (store (updateMany f fld v w)) = map uf_discordUserId (store w)"
  by (simp add: store_updateMany comp_def)

lemma owners_groupUpdates:
  "map uf_discordUserId (store (groupUpdates fld es w)) = map uf_discordUserId (store w)"
  by (simp add: store_groupUpdates comp_def)

lemma owners_syncField:
  "map uf_discordUserId (store (syncField fld key dflt bs w)) = map uf_discordUserId (store w)"
  by (simp only: syncField_eq owners_updateMany owners_groupUpdates)

lemma trace_groupUpdates:
  "\<exists>U. trace (groupUpdates fld es w) = trace w @ U \<and> (\<forall>e \<in> set U. isUpdateMany e)"
proof (induction es arbitrary: w)
  case Nil
  show ?case by (simp add: groupUpdates_def)
next
  case (Cons e es)
  obtain v ids where e: "e = (v, ids)" by (cases e)
  have step: "groupUpdates fld (e # es) w = groupUpdates fld es (updateMany (In ids) fld v w)"
    by (simp add: groupUpdates_def e)
  from Cons[of "updateMany (In ids) fld v w"] obtain U where
    U: "trace (groupUpdates fld es (updateMany (In ids) fld v w)) = trace (updateMany (In ids) fld v w) @ U"
      "\<forall>e \<in> set U. isUpdateMany e" by blast
  let ?U = "UpdateMany (In ids) fld v (length (filter (matches (In ids) fld v) (store w))) # U"
  have "trace (groupUpdates fld (e # es) w) = trace w @ ?U"
    by (simp add: step U(1) trace_updateMany)
  moreover have "\<forall>e \<in> set ?U. isUpdateMany e" using U(2) by simp
  ultimately show ?case by blast
qed

lemma trace_syncField:
  "\<exists>U ids n. trace (syncField fld key dflt bs w) = trace w @ U @ [UpdateMany (Nin ids) fld dflt n]
      \<and> (\<forall>e \<in> set U. isUpdateMany e)"
proof -
  let ?entries = "groupSupporters key (filter isSupporter bs)"
  from trace_groupUpdates[of fld ?entries w] obtain U where
    U: "trace (groupUpdates fld ?entries w) = trace w @ U" "\<forall>e \<in> set U. isUpdateMany e" by blast
  have "trace (syncField fld key dflt bs w) =
        trace w @ U @ [UpdateMany (Nin (concat (map snd ?entries))) fld dflt
           (length (filter (matches (Nin (concat (map snd ?entries))) fld dflt) (store (groupUpdates fld ?entries w))))]"
    by (simp add: syncField_eq trace_updateMany U(1))
  with U(2) show ?thesis by blast
qed

lemma trace_afterSync:
  "\<exists>U1 ids1 n1 U2 ids2 n2.
     newEvents w (afterSync cfg w) =
       GetBenefitsOfAllDiscordUsers # U1 @
       [UpdateMany (Nin ids1) RefreshRateSeconds (defaultRefreshRateSeconds cfg) n1] @ U2 @
       [UpdateMany (Nin ids2) MaxDailyArticles (maxDailyArticlesDefault cfg) n2]
     \<and> (\<forall>e \<in> set (U1 @ U2). isUpdateMany e)"
proof -
  let ?bs = "getBenefitsOfAllDiscordUsers cfg"
  let ?w1 = "logEvent GetBenefitsOfAllDiscordUsers w"
  let ?w2 = "syncRefreshRates cfg ?bs ?w1"
  from trace_syncField[of RefreshRateSeconds refreshRateSeconds "defaultRefreshRateSeconds cfg" ?bs ?w1]
  obtain U1 ids1 n1 where
    1: "trace ?w2 = trace ?w1 @ U1 @ [UpdateMany (Nin ids1) RefreshRateSeconds (defaultRefreshRateSeconds cfg) n1]"
       "\<forall>e \<in> set U1. isUpdateMany e"
    unfolding syncRefreshRates_def by blast
  from trace_syncField[of MaxDailyArticles maxDailyArticles "maxDailyArticlesDefault cfg" ?bs ?w2]
  obtain U2 ids2 n2 where
    2: "trace (afterSync cfg w) = trace ?w2 @ U2 @ [UpdateMany (Nin ids2) MaxDailyArticles (maxDailyArticlesDefault cfg) n2]"
       "\<forall>e \<in> set U2. isUpdateMany e"
    unfolding syncMaxDailyArticles_def afterSync_def by blast
  have "newEvents w (afterSync cfg w) =
       GetBenefitsOfAllDiscordUsers # U1 @
       [UpdateMany (Nin ids1) RefreshRateSeconds (defaultRefreshRateSeconds cfg) n1] @ U2 @
       [UpdateMany (Nin ids2) MaxDailyArticles (maxDailyArticlesDefault cfg) n2]"
    by (simp add: newEvents_def 2(1) 1(1) trace_logEvent)
  with 1(2) 2(2) show ?thesis by (intro exI conjI) auto
qed

lemma trace_afterSync_prefix: "trace (afterSync cfg w) = trace w @ newEvents w (afterSync cfg w)"
proof -
  let ?bs = "getBenefitsOfAllDiscordUsers cfg"
  let ?w1 = "logEvent GetBenefitsOfAllDiscordUsers w"
  let ?w2 = "syncRefreshRates cfg ?bs ?w1"
  from trace_syncField[of RefreshRateSeconds refreshRateSeconds "defaultRefreshRateSeconds cfg" ?bs ?w1]
  obtain A where 1: "trace ?w2 = trace ?w1 @ A"
    unfolding syncRefreshRates_def by blast
  from trace_syncField[of MaxDailyArticles maxDailyArticles "maxDailyArticlesDefault cfg" ?bs ?w2]
  obtain B where 2: "trace (afterSync cfg w) = trace ?w2 @ B"
    unfolding syncMaxDailyArticles_def afterSync_def by blast
  show ?thesis by (simp add: newEvents_def 2 1 trace_logEvent)
qed

lemma handleRefreshRate_eq:
  "handleRefreshRate cfg rate w =
     dispatchUrls (set (map uf_url (filter uf_debug (store (afterSync cfg w)))))
       (getUrlsQueryMatchingRefreshRate cfg rate (store (afterSync cfg w)))
       (logEvent (AggregateCursor rate) (logEvent FindDebugFeeds (afterSync cfg w)))"
  by (simp add: handleRefreshRate_def afterSync_def Let_def logEvent_def)

lemma dispatchUrls_trace:
  "trace (dispatchUrls D ds w) = trace w @ newEvents w (dispatchUrls D ds w)"
  by (simp add: dispatchUrls_def urlsLoop_eq newEvents_def logEvent_def)

lemma store_dispatchUrls: "store (dispatchUrls D ds w) = store w"
  by (simp add: dispatchUrls_def urlsLoop_eq logEvent_def)

lemma handleRefreshRate_events:
  "newEvents w (handleRefreshRate cfg rate w) =
     newEvents w (afterSync cfg w) @ [FindDebugFeeds, AggregateCursor rate] @
     newEvents (logEvent (AggregateCursor rate) (logEvent FindDebugFeeds (afterSync cfg w)))
       (dispatchUrls (set (map uf_url (filter uf_debug (store (afterSync cfg w)))))
          (getUrlsQueryMatchingRefreshRate cfg rate (store (afterSync cfg w)))
          (logEvent (AggregateCursor rate) (logEvent FindDebugFeeds (afterSync cfg w))))"
proof -
  let ?w5 = "logEvent (AggregateCursor rate) (logEvent FindDebugFeeds (afterSync cfg w))"
  let ?D = "set (map uf_url (filter uf_debug (store (afterSync cfg w))))"
  let ?ds = "getUrlsQueryMatchingRefreshRate cfg rate (store (afterSync cfg w))"
  have "trace (handleRefreshRate cfg rate w) = trace ?w5 @ newEvents ?w5 (dispatchUrls ?D ?ds ?w5)"
    by (simp only: handleRefreshRate_eq) (rule dispatchUrls_trace)
  also have "trace ?w5 = trace w @ newEvents w (afterSync cfg w) @ [FindDebugFeeds, AggregateCursor rate]"
    using trace_afterSync_prefix[of cfg w] by (simp add: trace_logEvent)
  finally show ?thesis by (simp add: newEvents_def[of w])
qed

lemma loopEvents_kinds:
  "e \<in> set (loopEvents D ds b) \<Longrightarrow> \<not> isUpdateMany e \<and> (\<forall>r. e \<noteq> AggregateCursor r)"
  by (induction ds arbitrary: b) (auto simp: Let_def split: if_splits)

lemma dispatch_kinds:
  "e \<in> set (newEvents w (dispatchUrls D ds w)) \<Longrightarrow> \<not> isUpdateMany e \<and> (\<forall>r. e \<noteq> AggregateCursor r)"
  using loopEvents_kinds[of e D ds "[]"]
  by (auto simp: dispatchUrls_events split: if_splits)

lemma handlerCalls_no_handler:
  "\<forall>e \<in> set es. isUpdateMany e \<or> e = GetBenefitsOfAllDiscordUsers \<Longrightarrow> handlerCalls es = []"
  by (induction es rule: handlerCalls.induct) auto

lemma cursorPulls_no_pull:
  "\<forall>e \<in> set es. isUpdateMany e \<or> e = GetBenefitsOfAllDiscordUsers \<Longrightarrow> cursorPulls es = []"
  by (induction es rule: cursorPulls.induct) auto

lemma afterSync_kinds:
  "\<forall>e \<in> set (newEvents w (afterSync cfg w)). isUpdateMany e \<or> e = GetBenefitsOfAllDiscordUsers"
proof -
  from trace_afterSync[of w cfg] obtain U1 ids1 n1 U2 ids2 n2 where
    "newEvents w (afterSync cfg w) =
       GetBenefitsOfAllDiscordUsers # U1 @
       [UpdateMany (Nin ids1) RefreshRateSeconds (defaultRefreshRateSeconds cfg) n1] @ U2 @
       [UpdateMany (Nin ids2) MaxDailyArticles (maxDailyArticlesDefault cfg) n2]"
    "\<forall>e \<in> set (U1 @ U2). isUpdateMany e" by blast
  then show ?thesis by auto
qed

lemma handleRefreshRate_handlerCalls:
  "handlerCalls (newEvents w (handleRefreshRate cfg rate w)) =
   handlerCalls (newEvents (logEvent (AggregateCursor rate) (logEvent FindDebugFeeds (afterSync cfg w)))
       (dispatchUrls (set (map uf_url (filter uf_debug (store (afterSync cfg w)))))
          (getUrlsQueryMatchingRefreshRate cfg rate (store (afterSync cfg w)))
          (logEvent (AggregateCursor rate) (logEvent FindDebugFeeds (afterSync cfg w)))))"
  by (simp add: handleRefreshRate_events handlerCalls_append handlerCalls_no_handler[OF afterSync_kinds])

lemma handleRefreshRate_cursorPulls:
  "cursorPulls (newEvents w (handleRefreshRate cfg rate w)) =
   getUrlsQueryMatchingRefreshRate cfg rate (store (afterSync cfg w))"
  by (simp add: handleRefreshRate_events cursorPulls_append cursorPulls_no_pull[OF afterSync_kinds]
      dispatchUrls_events cursorPulls_loopEvents)

lemma order_in_trace:
  assumes es: "es = A @ [F, C] @ P"
    and A: "\<forall>e \<in> set A. \<forall>r. e \<noteq> AggregateCursor r"
    and F: "\<not> isUpdateMany F" and C: "\<not> isUpdateMany C"
    and P: "\<forall>e \<in> set P. \<not> isUpdateMany e"
    and i: "i < length es" "isUpdateMany (es ! i)"
    and j: "j < length es" "es ! j = AggregateCursor r"
  shows "i < j"
proof -
  have "i < length A"
  proof (rule ccontr)
    assume n: "\<not> i < length A"
    then have "es ! i = ([F, C] @ P) ! (i - length A)" by (simp add: es nth_append)
    moreover have "i - length A < length ([F, C] @ P)" using i(1) n by (simp add: es)
    ultimately have "es ! i \<in> set ([F, C] @ P)" by (metis nth_mem)
    with F C P i(2) show False by auto
  qed
  moreover have "\<not> j < length A"
  proof
    assume "j < length A"
    then have "es ! j \<in> set A" by (simp add: es nth_append)
    with A j(2) show False by auto
  qed
  ultimately show ?thesis by simp
qed

subsection \<open>The claims about the schedule handler\<close>

lemma dispatchUrls_properties:
  fixes D ds w
  defines "es \<equiv> newEvents w (dispatchUrls D ds w)"
  defines "items \<equiv> dueItems D ds"
  shows "handlerCalls es = map (\<lambda>i. take 25 (drop (25 * i) items)) [0..<(length items + 24) div 25]
    \<and> concat (handlerCalls es) = items
    \<and> cursorPulls es = ds
    \<and> (\<forall>i c. i < length es \<and> es ! i = UrlsHandler c \<and> length c = 25 \<longrightarrow>
          0 < i \<and> es ! (i - 1) = CursorNext (Some (url (last c))))
    \<and> (\<forall>i c. i < length es \<and> es ! i = UrlsHandler c \<and> length c \<noteq> 25 \<longrightarrow>
          c \<noteq> [] \<and> length c < 25 \<and> Suc i = length es)
    \<and> (length items = 30 \<longrightarrow> handlerCalls es = [take 25 items, drop 25 items])"
proof -
  let ?L = "loopEvents D ds []" and ?r = "loopRest D ds []"
  have es: "es = ?L @ (if ?r = [] then [] else [UrlsHandler ?r])"
    unfolding es_def by (rule dispatchUrls_events)
  have inv: "concat (handlerCalls ?L) @ ?r = items" "\<forall>c \<in> set (handlerCalls ?L). length c = 25"
     "length ?r < 25"
    using loop_inv[of "[]" D ds] by (simp_all add: items_def)
  have hc: "handlerCalls es = handlerCalls ?L @ (if ?r = [] then [] else [?r])"
    by (simp add: es handlerCalls_append)
  have closed: "handlerCalls es = map (\<lambda>i. take 25 (drop (25 * i) items)) [0..<(length items + 24) div 25]"
  proof -
    have "handlerCalls ?L @ (if ?r = [] then [] else [?r]) =
          map (\<lambda>i. take 25 (drop (25 * i) (concat (handlerCalls ?L) @ ?r)))
            [0..<(length (concat (handlerCalls ?L) @ ?r) + 25 - 1) div 25]"
      by (rule chunks_closed_form[OF inv(2) _ inv(3)]) simp
    then have "handlerCalls ?L @ (if ?r = [] then [] else [?r]) =
          map (\<lambda>i. take 25 (drop (25 * i) items)) [0..<(length items + 25 - 1) div 25]"
      by (simp only: inv(1))
    moreover have "length items + 25 - 1 = length items + 24" by simp
    ultimately show ?thesis by (simp only: hc)
  qed
  have cc: "concat (handlerCalls es) = items"
    using inv(1) hc by auto
  have pulls: "cursorPulls es = ds"
    by (simp add: es cursorPulls_loopEvents cursorPulls_append)
  have full: "\<forall>i c. i < length es \<and> es ! i = UrlsHandler c \<and> length c = 25 \<longrightarrow>
          0 < i \<and> es ! (i - 1) = CursorNext (Some (url (last c)))"
  proof (intro allI impI, elim conjE)
    fix i c assume i: "i < length es" "es ! i = UrlsHandler c" "length c = 25"
    have "i < length ?L"
    proof (rule ccontr)
      assume "\<not> i < length ?L"
      with i(1,2) have "c = ?r" by (auto simp: es nth_append split: if_splits)
      with inv(3) i(3) show False by simp
    qed
    with i(2) have "?L ! i = UrlsHandler c" by (simp add: es nth_append)
    from loopEvents_adjacent[OF _ \<open>i < length ?L\<close> this]
    have "0 < i" "?L ! (i - 1) = CursorNext (Some (url (last c)))" by simp_all
    moreover from \<open>i < length ?L\<close> have "i - 1 < length ?L" by arith
    ultimately show "0 < i \<and> es ! (i - 1) = CursorNext (Some (url (last c)))"
      by (simp add: es nth_append)
  qed
  have part: "\<forall>i c. i < length es \<and> es ! i = UrlsHandler c \<and> length c \<noteq> 25 \<longrightarrow>
          c \<noteq> [] \<and> length c < 25 \<and> Suc i = length es"
  proof (intro allI impI, elim conjE)
    fix i c assume i: "i < length es" "es ! i = UrlsHandler c" "length c \<noteq> 25"
    have "\<not> i < length ?L"
    proof
      assume lt: "i < length ?L"
      with i(2) have "?L ! i = UrlsHandler c" by (simp add: es nth_append)
      from loopEvents_adjacent[OF _ lt this] i(3) show False by simp
    qed
    with i(1,2) have "c = ?r" "?r \<noteq> []" "Suc i = length es"
      by (auto simp: es nth_append split: if_splits)
    with inv(3) show "c \<noteq> [] \<and> length c < 25 \<and> Suc i = length es" by simp
  qed
  have thirty: "length items = 30 \<longrightarrow> handlerCalls es = [take 25 items, drop 25 items]"
  proof
    assume "length items = 30"
    then have "(length items + 24) div 25 = 2" by simp
    then have "handlerCalls es = map (\<lambda>i. take 25 (drop (25 * i) items)) [0..<2]"
      using closed by simp
    also have "[0..<2] = [0, Suc 0]" by (simp add: upt_conv_Cons)
    finally show "handlerCalls es = [take 25 items, drop 25 items]"
      using \<open>length items = 30\<close> by simp
  qed
  from closed cc pulls full part thirty show ?thesis by blast
qed

text \<open>
  Claim C1. \<open>handleRefreshRate\<close> pushes the urls of the cursor, in cursor order, onto a
  batch and calls \<open>urlsHandler\<close> as soon as the batch holds 25 elements; when the cursor
  is exhausted it calls \<open>urlsHandler\<close> once more if and only if the batch is not empty.
  For every cursor stream \<open>ds\<close> (\<open>items\<close> are its urls, those that are null or empty left
  out): the \<open>i\<close>-th call receives the elements \<open>25 i\<close> up to \<open>25 i + 24\<close> of \<open>items\<close>
  and there are \<open>\<lceil>length items / 25\<rceil>\<close> calls; the calls concatenated are \<open>items\<close>; every
  document of the cursor is pulled once; a call with 25 elements comes directly after the
  pull of its last url; a call with fewer elements is not empty and is the last event;
  30 urls give two calls, with the first 25 and the last 5 urls. The calls of
  \<open>handleRefreshRate\<close> are these calls for the stream of its aggregation cursor.
\<close>

theorem handleRefreshRate_batches:
  fixes D ds w cfg rate w'
  defines "es \<equiv> newEvents w (dispatchUrls D ds w)"
  defines "items \<equiv> dueItems D ds"
  defines "w3 \<equiv> afterSync cfg w'"
  defines "items' \<equiv> dueItems (set (map uf_url (filter uf_debug (store w3))))
                       (getUrlsQueryMatchingRefreshRate cfg rate (store w3))"
  shows "handlerCalls es = map (\<lambda>i. take 25 (drop (25 * i) items)) [0..<(length items + 24) div 25]
    \<and> concat (handlerCalls es) = items
    \<and> cursorPulls es = ds
    \<and> (\<forall>i c. i < length es \<and> es ! i = UrlsHandler c \<and> length c = 25 \<longrightarrow>
          0 < i \<and> es ! (i - 1) = CursorNext (Some (url (last c))))
    \<and> (\<forall>i c. i < length es \<and> es ! i = UrlsHandler c \<and> length c \<noteq> 25 \<longrightarrow>
          c \<noteq> [] \<and> length c < 25 \<and> Suc i = length es)
    \<and> (length items = 30 \<longrightarrow> handlerCalls es = [take 25 items, drop 25 items])
    \<and> handlerCalls (newEvents w' (handleRefreshRate cfg rate w')) =
         map (\<lambda>i. take 25 (drop (25 * i) items')) [0..<(length items' + 24) div 25]"
proof -
  let ?w5 = "logEvent (AggregateCursor rate) (logEvent FindDebugFeeds (afterSync cfg w'))"
  have "handlerCalls (newEvents w' (handleRefreshRate cfg rate w')) =
         map (\<lambda>i. take 25 (drop (25 * i) items')) [0..<(length items' + 24) div 25]"
    unfolding items'_def w3_def handleRefreshRate_handlerCalls
    using dispatchUrls_properties[of ?w5] by (simp only: store_logEvent)
  with dispatchUrls_properties[of w D ds] show ?thesis
    unfolding es_def items_def by blast
qed

theorem handleRefreshRate_batches_witness:
  "length (dueItems {Some ''v''} ds0) = 30 \<and>
   27 < length (newEvents w0 (dispatchUrls {Some ''v''} ds0 w0)) \<and>
   (\<exists>c. newEvents w0 (dispatchUrls {Some ''v''} ds0 w0) ! 27 = UrlsHandler c \<and> length c = 25) \<and>
   newEvents w0 (dispatchUrls {Some ''v''} ds0 w0) ! 26 = CursorNext (Some ''v'') \<and>
   (\<exists>c. newEvents w0 (dispatchUrls {Some ''v''} ds0 w0) ! 33 = UrlsHandler c \<and> length c = 5) \<and>
   length (newEvents w0 (dispatchUrls {Some ''v''} ds0 w0)) = 34 \<and>
   map length (handlerCalls (newEvents w0 (dispatchUrls {Some ''v''} ds0 w0))) = [25, 5]"
proof -
  let ?es = "newEvents w0 (dispatchUrls {Some ''v''} ds0 w0)"
  let ?c = "replicate 12 \<lparr>url = ''u'', saveToObjectStorage = False\<rparr> @ replicate 13 \<lparr>url = ''v'', saveToObjectStorage = True\<rparr>"
  have len: "length (dueItems {Some ''v''} ds0) = 30" by code_simp
  have l: "27 < length ?es" by code_simp
  have e: "?es ! 27 = UrlsHandler ?c" by code_simp
  have lc: "length ?c = 25" by simp
  have u: "url (last ?c) = ''v''" by code_simp
  let ?c' = "replicate 5 \<lparr>url = ''v'', saveToObjectStorage = True\<rparr>"
  have l': "33 < length ?es" by code_simp
  have e': "?es ! 33 = UrlsHandler ?c'" by code_simp
  have lc': "length ?c' \<noteq> 25" "length ?c' = 5" by simp_all
  from handleRefreshRate_batches[of w0 "{Some ''v''}" ds0] len l e lc
  have "handlerCalls ?es = [take 25 (dueItems {Some ''v''} ds0), drop 25 (dueItems {Some ''v''} ds0)]"
    and "?es ! (27 - 1) = CursorNext (Some (url (last ?c)))"
    by blast+
  moreover from handleRefreshRate_batches[of w0 "{Some ''v''}" ds0] l' e' lc'(1)
  have "Suc 33 = length ?es" by blast
  ultimately show ?thesis using len l e lc u e' lc'(2) by simp
qed

text \<open>
  Claim C6, amended. For every store and every snapshot that lists no subscriber as a
  supporter with two different refresh rates: one run of \<open>syncRefreshRates\<close> leaves every
  document with the refresh rate its owner is entitled to (the supporter's rate, the
  process-wide default for an owner who is no supporter) and changes no owner; a second
  run with the same snapshot issues its bulk updates, each of which matches zero
  documents, and leaves the store as it is.
\<close>

theorem syncRefreshRates_idempotent:
  fixes cfg bs w
  defines "w1 \<equiv> syncRefreshRates cfg bs w"
  defines "w2 \<equiv> syncRefreshRates cfg bs w1"
  assumes H: "oneValuePerSupporter refreshRateSeconds bs"
  shows "(\<forall>d \<in> set (store w1). uf_refreshRateSeconds d =
            Some (entitledValue refreshRateSeconds (defaultRefreshRateSeconds cfg) bs (uf_discordUserId d)))
     \<and> map uf_discordUserId (store w1) = map uf_discordUserId (store w)
     \<and> store w2 = store w1
     \<and> newEvents w1 w2 \<noteq> []
     \<and> (\<forall>e \<in> set (newEvents w1 w2). isUpdateMany e \<and> writes e = 0)"
proof -
  let ?dflt = "defaultRefreshRateSeconds cfg"
  have conv: "\<forall>d \<in> set (store w1). getField RefreshRateSeconds d =
            Some (entitledValue refreshRateSeconds ?dflt bs (uf_discordUserId d))"
    unfolding w1_def syncRefreshRates_def using syncField_converges[OF H] by blast
  from syncField_fixpoint[OF H conv]
  have fp: "store w2 = store w1" "\<forall>e \<in> set (newEvents w1 w2). writes e = 0"
    unfolding w2_def syncRefreshRates_def by simp_all
  from trace_syncField[of RefreshRateSeconds refreshRateSeconds ?dflt bs w1]
  obtain U ids n where "trace w2 = trace w1 @ U @ [UpdateMany (Nin ids) RefreshRateSeconds ?dflt n]"
     "\<forall>e \<in> set U. isUpdateMany e"
    unfolding w2_def syncRefreshRates_def by blast
  then have ev: "newEvents w1 w2 \<noteq> []" "\<forall>e \<in> set (newEvents w1 w2). isUpdateMany e"
    by (auto simp: newEvents_def)
  have own: "map uf_discordUserId (store w1) = map uf_discordUserId (store w)"
    unfolding w1_def syncRefreshRates_def by (rule owners_syncField)
  from conv fp ev own show ?thesis by simp
qed

theorem syncRefreshRates_idempotent_witness:
  "oneValuePerSupporter refreshRateSeconds (getBenefitsOfAllDiscordUsers cfg0)
   \<and> store (syncRefreshRates cfg0 (getBenefitsOfAllDiscordUsers cfg0) w0) \<noteq> []
   \<and> map uf_refreshRateSeconds (store (syncRefreshRates cfg0 (getBenefitsOfAllDiscordUsers cfg0) w0))
       = [Some 120, Some 600]
   \<and> store (syncRefreshRates cfg0 (getBenefitsOfAllDiscordUsers cfg0)
         (syncRefreshRates cfg0 (getBenefitsOfAllDiscordUsers cfg0) w0))
       = store (syncRefreshRates cfg0 (getBenefitsOfAllDiscordUsers cfg0) w0)"
proof -
  have h: "oneValuePerSupporter refreshRateSeconds (getBenefitsOfAllDiscordUsers cfg0)"
    by code_simp
  have s: "store (syncRefreshRates cfg0 (getBenefitsOfAllDiscordUsers cfg0) w0) \<noteq> []"
    by code_simp
  have r: "map uf_refreshRateSeconds (store (syncRefreshRates cfg0 (getBenefitsOfAllDiscordUsers cfg0) w0))
       = [Some 120, Some 600]"
    by code_simp
  from syncRefreshRates_idempotent[OF h, of cfg0 w0] h s r show ?thesis by simp
qed

text \<open>
  Claim C6 as stated, for every snapshot, fails: with \<open>u1\<close> listed under the rates 60 and
  120, the first run leaves the feed of \<open>u1\<close> at 120, and in the second run the bulk
  update of the group of 60 and then that of the group of 120 each match it and write
  it again. Whatever the order in which the two updates are applied, one of them finds
  the value of the other.
\<close>

theorem syncRefreshRates_duplicate_counterexample:
  "map writes (newEvents (syncRefreshRates cfg0 bsDup w0)
          (syncRefreshRates cfg0 bsDup (syncRefreshRates cfg0 bsDup w0))) = [1, 1, 0]"
  by code_simp

text \<open>
  Claim C8. In every execution of \<open>handleRefreshRate\<close> the events are: the read of the
  benefits, the bulk updates of \<open>syncRefreshRates\<close> ending with its reset to the default,
  the bulk updates of \<open>syncMaxDailyArticles\<close> ending with its reset to the default, the
  query for the feeds to debug, the opening of the aggregation cursor, and then pulls and
  handler calls only. So every bulk update comes before the opening of the cursor; the
  documents the cursor yields are the result of the query on the store that the two
  synchronisations have left, and nothing changes that store afterwards.
\<close>

theorem handleRefreshRate_sync_before_cursor:
  fixes cfg rate w
  defines "es \<equiv> newEvents w (handleRefreshRate cfg rate w)"
  defines "w3 \<equiv> afterSync cfg w"
  shows "(\<exists>U1 ids1 n1 U2 ids2 n2 post.
           es = GetBenefitsOfAllDiscordUsers # U1 @
                [UpdateMany (Nin ids1) RefreshRateSeconds (defaultRefreshRateSeconds cfg) n1] @ U2 @
                [UpdateMany (Nin ids2) MaxDailyArticles (maxDailyArticlesDefault cfg) n2] @
                [FindDebugFeeds, AggregateCursor rate] @ post
           \<and> (\<forall>e \<in> set (U1 @ U2). isUpdateMany e)
           \<and> (\<forall>e \<in> set post. \<not> isUpdateMany e \<and> (\<forall>r. e \<noteq> AggregateCursor r)))
    \<and> (\<forall>i j r. i < length es \<and> j < length es \<and> isUpdateMany (es ! i) \<and> es ! j = AggregateCursor r
          \<longrightarrow> i < j)
    \<and> cursorPulls es = getUrlsQueryMatchingRefreshRate cfg rate (store w3)
    \<and> store (handleRefreshRate cfg rate w) = store w3"
proof -
  let ?w5 = "logEvent (AggregateCursor rate) (logEvent FindDebugFeeds (afterSync cfg w))"
  let ?D = "set (map uf_url (filter uf_debug (store (afterSync cfg w))))"
  let ?ds = "getUrlsQueryMatchingRefreshRate cfg rate (store (afterSync cfg w))"
  let ?post = "newEvents ?w5 (dispatchUrls ?D ?ds ?w5)"
  let ?A = "newEvents w (afterSync cfg w)"
  have es: "es = ?A @ [FindDebugFeeds, AggregateCursor rate] @ ?post"
    unfolding es_def by (rule handleRefreshRate_events)
  from trace_afterSync[of w cfg] obtain U1 ids1 n1 U2 ids2 n2 where
    A: "?A = GetBenefitsOfAllDiscordUsers # U1 @
       [UpdateMany (Nin ids1) RefreshRateSeconds (defaultRefreshRateSeconds cfg) n1] @ U2 @
       [UpdateMany (Nin ids2) MaxDailyArticles (maxDailyArticlesDefault cfg) n2]"
    and U: "\<forall>e \<in> set (U1 @ U2). isUpdateMany e" by blast
  have post: "\<forall>e \<in> set ?post. \<not> isUpdateMany e \<and> (\<forall>r. e \<noteq> AggregateCursor r)"
    using dispatch_kinds by blast
  have 1: "\<exists>U1 ids1 n1 U2 ids2 n2 post.
           es = GetBenefitsOfAllDiscordUsers # U1 @
                [UpdateMany (Nin ids1) RefreshRateSeconds (defaultRefreshRateSeconds cfg) n1] @ U2 @
                [UpdateMany (Nin ids2) MaxDailyArticles (maxDailyArticlesDefault cfg) n2] @
                [FindDebugFeeds, AggregateCursor rate] @ post
           \<and> (\<forall>e \<in> set (U1 @ U2). isUpdateMany e)
           \<and> (\<forall>e \<in> set post. \<not> isUpdateMany e \<and> (\<forall>r. e \<noteq> AggregateCursor r))"
    apply (rule exI[of _ U1], rule exI[of _ ids1], rule exI[of _ n1])
    apply (rule exI[of _ U2], rule exI[of _ ids2], rule exI[of _ n2], rule exI[of _ ?post])
    using es A U post by simp
  have Ak: "\<forall>e \<in> set ?A. \<forall>r. e \<noteq> AggregateCursor r"
    using afterSync_kinds[of w cfg] by auto
  have 2: "\<forall>i j r. i < length es \<and> j < length es \<and> isUpdateMany (es ! i) \<and> es ! j = AggregateCursor r
          \<longrightarrow> i < j"
    using order_in_trace[OF es Ak _ _ _] post by auto
  have 3: "cursorPulls es = getUrlsQueryMatchingRefreshRate cfg rate (store w3)"
    unfolding es_def w3_def by (rule handleRefreshRate_cursorPulls)
  have 4: "store (handleRefreshRate cfg rate w) = store w3"
    by (simp add: handleRefreshRate_eq store_dispatchUrls store_logEvent w3_def)
  from 1 2 3 4 show ?thesis by blast
qed

theorem handleRefreshRate_sync_before_cursor_witness:
  "4 < length (newEvents w0 (handleRefreshRate cfg0 120 w0))
   \<and> 6 < length (newEvents w0 (handleRefreshRate cfg0 120 w0))
   \<and> isUpdateMany (newEvents w0 (handleRefreshRate cfg0 120 w0) ! 4)
   \<and> newEvents w0 (handleRefreshRate cfg0 120 w0) ! 6 = AggregateCursor 120
   \<and> (4::nat) < 6
   \<and> cursorPulls (newEvents w0 (handleRefreshRate cfg0 120 w0)) = [Some ''https://a.example/feed.xml'']"
proof -
  let ?es = "newEvents w0 (handleRefreshRate cfg0 120 w0)"
  have l: "4 < length ?es" "6 < length ?es" by code_simp+
  have u: "isUpdateMany (?es ! 4)" by code_simp
  have c: "?es ! 6 = AggregateCursor 120" by code_simp
  have q: "getUrlsQueryMatchingRefreshRate cfg0 120 (store (afterSync cfg0 w0)) =
           [Some ''https://a.example/feed.xml'']" by code_simp
  from handleRefreshRate_sync_before_cursor[of w0 cfg0 120] l u c
  have "(4::nat) < 6" by blast
  moreover from handleRefreshRate_sync_before_cursor[of w0 cfg0 120] q
  have "cursorPulls ?es = [Some ''https://a.example/feed.xml'']" by simp
  ultimately show ?thesis using l u c by simp
qed

section \<open>Properties of the fetcher\<close>

subsection \<open>The blocks of fetchAndSaveResponse\<close>

lemma digest_sha1: "digest H (update (copy sha1) s) = H s"
  by (simp add: digest_def update_def copy_def sha1_def createHash_def)

lemma fetchAndSaveResponse_eq:
  "fetchAndSaveResponse H env u opts w =
     finallyBlock env opts
       (case fetched env u opts of
          Inr res \<Rightarrow> tryBlock H env u opts (newRequest env u opts) res w
        | Inl err \<Rightarrow> catchBlock u (newRequest env u opts) err w)"
  by (simp add: fetchAndSaveResponse_def fetched_def newRequest_def Let_def split: sum.split)

lemma finallyBlock_fst:
  "fst (finallyBlock env opts r) = (case flushException env opts of Some err \<Rightarrow> Inl err | None \<Rightarrow> Inr (fst r))"
  by (simp add: finallyBlock_def flushException_def split: option.split)

lemma fsr_rejects_iff:
  "fst (fetchAndSaveResponse H env u opts w) = Inl err \<longleftrightarrow> flushException env opts = Some err"
  by (simp add: fetchAndSaveResponse_eq finallyBlock_fst split: option.split)

lemma saveToCache_fst:
  "fst (saveToCache H env u opts text rs w) =
     (case deflate env text of Inl e \<Rightarrow> Some e | Inr c \<Rightarrow> setFeedHtmlContent env (H u) c)"
  by (simp add: saveToCache_def Let_def digest_sha1 split: sum.split option.split prod.split)

lemma saveToCache_cache:
  "cacheStorage (snd (snd (saveToCache H env u opts text rs w))) =
     cacheStorage w @
       (case deflate env text of
          Inl e \<Rightarrow> []
        | Inr c \<Rightarrow> (case setFeedHtmlContent env (H u) c of None \<Rightarrow> [(H u, c)] | Some e \<Rightarrow> []))"
  by (simp add: saveToCache_def Let_def digest_sha1 split: sum.split option.split prod.split)

lemma saveToCache_objects:
  "objectFileStorage (snd (snd (saveToCache H env u opts text rs w))) =
     objectFileStorage w @
       (case deflate env text of
          Inl e \<Rightarrow> []
        | Inr c \<Rightarrow>
            if (case opts of None \<Rightarrow> False | Some opt \<Rightarrow> saveResponseToObjectStorage opt)
               \<and> uploadFeedHtmlContent env (randomUUID env) c = None
            then [(randomUUID env, c)] else [])"
  by (simp add: saveToCache_def Let_def digest_sha1 split: sum.split option.split prod.split)

lemma saveToCache_repos:
  "requestRepo (snd (snd (saveToCache H env u opts text rs w))) = requestRepo w"
  "responseRepo (snd (snd (saveToCache H env u opts text rs w))) = responseRepo w"
  "flushed (snd (snd (saveToCache H env u opts text rs w))) = flushed w"
  by (simp_all add: saveToCache_def Let_def split: sum.split option.split prod.split)

lemma saveToCache_response:
  "redisCacheKey (fst (snd (saveToCache H env u opts text rs w))) =
     (case deflate env text of Inl e \<Rightarrow> redisCacheKey rs | Inr c \<Rightarrow> Some (H u))"
  "textHash (fst (snd (saveToCache H env u opts text rs w))) =
     (case deflate env text of Inl e \<Rightarrow> textHash rs
      | Inr c \<Rightarrow> Some (if text \<noteq> [] then H text else []))"
  "statusCode (fst (snd (saveToCache H env u opts text rs w))) = statusCode rs"
  by (simp_all add: saveToCache_def Let_def digest_sha1 split: sum.split option.split prod.split)

lemma decodeAndCache_alt:
  "decodeAndCache H env u opts res st rs w =
     (case decoded env res of
        Inl err \<Rightarrow>
          if isFeedTooLargeException err then (NullText, REFUSED_LARGE_FEED, rs, w)
          else (NullText, PARSE_ERROR, rs,
                w\<lparr>logged := logged w @ [LogDebug (''Failed to parse response text of url '' @ u)]\<rparr>)
      | Inr text \<Rightarrow>
          (Text text,
           (case fst (saveToCache H env u opts text rs w) of
              None \<Rightarrow> st
            | Some err \<Rightarrow> if isFeedTooLargeException err then REFUSED_LARGE_FEED else st),
           fst (snd (saveToCache H env u opts text rs w)),
           (case fst (saveToCache H env u opts text rs w) of
              None \<Rightarrow> snd (snd (saveToCache H env u opts text rs w))
            | Some err \<Rightarrow>
                if isFeedTooLargeException err then snd (snd (saveToCache H env u opts text rs w))
                else (snd (snd (saveToCache H env u opts text rs w)))
                  \<lparr>logged := logged (snd (snd (saveToCache H env u opts text rs w))) @
                     [LogError (''Failed to upload feed html content for url '' @ u @ '' to cache'')]\<rparr>)))"
  unfolding decodeAndCache_def decoded_def
  by (simp split: sum.split prod.split option.split)

lemma tryBlock_alt:
  "tryBlock H env u opts rq res w =
     (let r = decodeAndCache H env u opts res (statusOfResponse res) (newResponse (rq_createdAt rq) res) w;
          rs'' = (fst (snd (snd r)))
                   \<lparr>isCloudflare := Some (case fr_headers res ''server'' of
                                            None \<Rightarrow> False
                                          | Some s \<Rightarrow> includesStr s ''cloudflare'')\<rparr>;
          rq' = rq\<lparr>status := Some (fst (snd r)), response := Some rs''\<rparr>
      in (\<lparr>request = rq', responseText = fst r\<rparr>,
          (snd (snd (snd r)))\<lparr>responseRepo := responseRepo (snd (snd (snd r))) @ [rs''],
                               requestRepo := requestRepo (snd (snd (snd r))) @ [rq']\<rparr>))"
  unfolding tryBlock_def statusOfResponse_def newResponse_def Let_def
  by (simp split: prod.split)

lemma finallyBlock_snd:
  "cacheStorage (snd (finallyBlock env opts r)) = cacheStorage (snd r)"
  "objectFileStorage (snd (finallyBlock env opts r)) = objectFileStorage (snd r)"
  "requestRepo (snd (finallyBlock env opts r)) = requestRepo (snd r)"
  "responseRepo (snd (finallyBlock env opts r)) = responseRepo (snd r)"
  "logged (snd (finallyBlock env opts r)) = logged (snd r)"
  by (simp_all add: finallyBlock_def split: option.split)

lemma catchBlock_simps:
  "fst (catchBlock u rq err w) =
     \<lparr>request = rq\<lparr>status := Some (if isRequestTimeout err then FETCH_TIMEOUT else FETCH_ERROR),
                    errorMessage := Some (message err)\<rparr>, responseText = NoText\<rparr>"
  "requestRepo (snd (catchBlock u rq err w)) =
     requestRepo w @ [rq\<lparr>status := Some (if isRequestTimeout err then FETCH_TIMEOUT else FETCH_ERROR),
                    errorMessage := Some (message err)\<rparr>]"
  "cacheStorage (snd (catchBlock u rq err w)) = cacheStorage w"
  "objectFileStorage (snd (catchBlock u rq err w)) = objectFileStorage w"
  "responseRepo (snd (catchBlock u rq err w)) = responseRepo w"
  by (simp_all add: catchBlock_def Let_def)


lemma decodeAndCache_text:
  "fst (decodeAndCache H env u opts res st rs w) =
     (case decoded env res of Inl e \<Rightarrow> NullText | Inr t \<Rightarrow> Text t)"
  by (simp add: decodeAndCache_alt split: sum.split)

lemma decodeAndCache_status:
  "fst (snd (decodeAndCache H env u opts res st rs w)) =
     (case decoded env res of
        Inl e \<Rightarrow> if isFeedTooLargeException e then REFUSED_LARGE_FEED else PARSE_ERROR
      | Inr t \<Rightarrow>
          (case deflate env t of
             Inl e \<Rightarrow> if isFeedTooLargeException e then REFUSED_LARGE_FEED else st
           | Inr c \<Rightarrow>
               (case setFeedHtmlContent env (H u) c of
                  None \<Rightarrow> st
                | Some e \<Rightarrow> if isFeedTooLargeException e then REFUSED_LARGE_FEED else st)))"
  by (simp add: decodeAndCache_alt saveToCache_fst split: sum.split option.split)

lemma decodeAndCache_cache:
  "cacheStorage (snd (snd (snd (decodeAndCache H env u opts res st rs w)))) =
     cacheStorage w @
       (case decoded env res of
          Inl e \<Rightarrow> []
        | Inr t \<Rightarrow>
            (case deflate env t of
               Inl e \<Rightarrow> []
             | Inr c \<Rightarrow> (case setFeedHtmlContent env (H u) c of None \<Rightarrow> [(H u, c)] | Some e \<Rightarrow> [])))"
  by (simp add: decodeAndCache_alt saveToCache_fst saveToCache_cache split: sum.split option.split)

lemma decodeAndCache_objects:
  "objectFileStorage (snd (snd (snd (decodeAndCache H env u opts res st rs w)))) =
     objectFileStorage w @
       (case decoded env res of
          Inl e \<Rightarrow> []
        | Inr t \<Rightarrow>
            (case deflate env t of
               Inl e \<Rightarrow> []
             | Inr c \<Rightarrow>
                 if (case opts of None \<Rightarrow> False | Some opt \<Rightarrow> saveResponseToObjectStorage opt)
                    \<and> uploadFeedHtmlContent env (randomUUID env) c = None
                 then [(randomUUID env, c)] else []))"
  by (simp add: decodeAndCache_alt saveToCache_fst saveToCache_objects split: sum.split option.split)

lemma decodeAndCache_repos:
  "requestRepo (snd (snd (snd (decodeAndCache H env u opts res st rs w)))) = requestRepo w"
  "responseRepo (snd (snd (snd (decodeAndCache H env u opts res st rs w)))) = responseRepo w"
  by (simp_all add: decodeAndCache_alt saveToCache_repos split: sum.split option.split)

lemma decodeAndCache_response:
  "redisCacheKey (fst (snd (snd (decodeAndCache H env u opts res st rs w)))) =
     (case decoded env res of
        Inl e \<Rightarrow> redisCacheKey rs
      | Inr t \<Rightarrow> (case deflate env t of Inl e \<Rightarrow> redisCacheKey rs | Inr c \<Rightarrow> Some (H u)))"
  "textHash (fst (snd (snd (decodeAndCache H env u opts res st rs w)))) =
     (case decoded env res of
        Inl e \<Rightarrow> textHash rs
      | Inr t \<Rightarrow> (case deflate env t of Inl e \<Rightarrow> textHash rs
                  | Inr c \<Rightarrow> Some (if t \<noteq> [] then H t else [])))"
  "statusCode (fst (snd (snd (decodeAndCache H env u opts res st rs w)))) = statusCode rs"
  by (simp_all add: decodeAndCache_alt saveToCache_response split: sum.split option.split)

lemma decodeAndCache_logged:
  assumes "decoded env res = Inr t"
    and "deflate env t = Inl err \<or> (\<exists>c. deflate env t = Inr c \<and> setFeedHtmlContent env (H u) c = Some err)"
    and "\<not> isFeedTooLargeException err"
  shows "LogError (''Failed to upload feed html content for url '' @ u @ '' to cache'')
           \<in> set (logged (snd (snd (snd (decodeAndCache H env u opts res st rs w)))))"
  using assms by (auto simp: decodeAndCache_alt saveToCache_fst)


lemma fsr_response:
  assumes "fetched env u opts = Inr res"
  shows "fst (fetchAndSaveResponse H env u opts w) =
           (case flushException env opts of
              Some e \<Rightarrow> Inl e
            | None \<Rightarrow> Inr \<lparr>request = persistedRequest H env u opts res w, responseText = fst (decodeStep H env u opts res w)\<rparr>)"
    and "requestRepo (snd (fetchAndSaveResponse H env u opts w)) = requestRepo w @ [persistedRequest H env u opts res w]"
    and "responseRepo (snd (fetchAndSaveResponse H env u opts w)) = responseRepo w @ [persistedResponse H env u opts res w]"
    and "cacheStorage (snd (fetchAndSaveResponse H env u opts w)) = cacheStorage (snd (snd (snd (decodeStep H env u opts res w))))"
    and "objectFileStorage (snd (fetchAndSaveResponse H env u opts w)) = objectFileStorage (snd (snd (snd (decodeStep H env u opts res w))))"
    and "logged (snd (fetchAndSaveResponse H env u opts w)) = logged (snd (snd (snd (decodeStep H env u opts res w))))"
proof -
  have nd: "rq_createdAt (newRequest env u opts) = newDate env" by (simp add: newRequest_def)
  have t: "tryBlock H env u opts (newRequest env u opts) res w =
     (\<lparr>request = persistedRequest H env u opts res w, responseText = fst (decodeStep H env u opts res w)\<rparr>,
      (snd (snd (snd (decodeStep H env u opts res w))))
         \<lparr>responseRepo := responseRepo (snd (snd (snd (decodeStep H env u opts res w)))) @ [persistedResponse H env u opts res w],
          requestRepo := requestRepo (snd (snd (snd (decodeStep H env u opts res w)))) @ [persistedRequest H env u opts res w]\<rparr>)"
    by (simp only: tryBlock_alt Let_def nd decodeStep_def persistedRequest_def persistedResponse_def)
  have e: "fetchAndSaveResponse H env u opts w =
      finallyBlock env opts (tryBlock H env u opts (newRequest env u opts) res w)"
    by (simp add: fetchAndSaveResponse_eq assms)
  show "fst (fetchAndSaveResponse H env u opts w) =
           (case flushException env opts of
              Some e \<Rightarrow> Inl e
            | None \<Rightarrow> Inr \<lparr>request = persistedRequest H env u opts res w, responseText = fst (decodeStep H env u opts res w)\<rparr>)"
    by (simp add: e finallyBlock_fst t split: option.split)
  show "requestRepo (snd (fetchAndSaveResponse H env u opts w)) = requestRepo w @ [persistedRequest H env u opts res w]"
    by (simp add: e finallyBlock_snd t decodeStep_def decodeAndCache_repos)
  show "responseRepo (snd (fetchAndSaveResponse H env u opts w)) = responseRepo w @ [persistedResponse H env u opts res w]"
    by (simp add: e finallyBlock_snd t decodeStep_def decodeAndCache_repos)
  show "cacheStorage (snd (fetchAndSaveResponse H env u opts w)) = cacheStorage (snd (snd (snd (decodeStep H env u opts res w))))"
    by (simp add: e finallyBlock_snd t)
  show "objectFileStorage (snd (fetchAndSaveResponse H env u opts w)) = objectFileStorage (snd (snd (snd (decodeStep H env u opts res w))))"
    by (simp add: e finallyBlock_snd t)
  show "logged (snd (fetchAndSaveResponse H env u opts w)) = logged (snd (snd (snd (decodeStep H env u opts res w))))"
    by (simp add: e finallyBlock_snd t)
qed

lemma fsr_error:
  assumes "fetched env u opts = Inl err"
  shows "fst (fetchAndSaveResponse H env u opts w) =
           (case flushException env opts of
              Some e \<Rightarrow> Inl e
            | None \<Rightarrow> Inr \<lparr>request = (newRequest env u opts)
                \<lparr>status := Some (if isRequestTimeout err then FETCH_TIMEOUT else FETCH_ERROR),
                 errorMessage := Some (message err)\<rparr>, responseText = NoText\<rparr>)"
    and "requestRepo (snd (fetchAndSaveResponse H env u opts w)) =
           requestRepo w @ [(newRequest env u opts)
                \<lparr>status := Some (if isRequestTimeout err then FETCH_TIMEOUT else FETCH_ERROR),
                 errorMessage := Some (message err)\<rparr>]"
    and "responseRepo (snd (fetchAndSaveResponse H env u opts w)) = responseRepo w"
    and "cacheStorage (snd (fetchAndSaveResponse H env u opts w)) = cacheStorage w"
    and "objectFileStorage (snd (fetchAndSaveResponse H env u opts w)) = objectFileStorage w"
  by (simp_all add: fetchAndSaveResponse_eq assms finallyBlock_fst finallyBlock_snd catchBlock_simps
      split: option.split)

lemma persistedRequest_simps:
  "rq_url (persistedRequest H env u opts res w) = u"
  "status (persistedRequest H env u opts res w) = Some (fst (snd (decodeStep H env u opts res w)))"
  "response (persistedRequest H env u opts res w) = Some (persistedResponse H env u opts res w)"
  by (simp_all add: persistedRequest_def newRequest_def)

lemma persistedResponse_simps:
  "redisCacheKey (persistedResponse H env u opts res w) = redisCacheKey (fst (snd (snd (decodeStep H env u opts res w))))"
  "textHash (persistedResponse H env u opts res w) = textHash (fst (snd (snd (decodeStep H env u opts res w))))"
  "statusCode (persistedResponse H env u opts res w) = fr_status res"
  by (simp_all add: persistedResponse_def decodeStep_def decodeAndCache_response newResponse_def)

lemma fsr_result_cases:
  assumes "fst (fetchAndSaveResponse H env u opts w) = Inr r"
  shows "(\<exists>err. fetched env u opts = Inl err \<and> response (request r) = None) \<or>
         (\<exists>res. fetched env u opts = Inr res \<and> request r = persistedRequest H env u opts res w \<and>
                responseText r = fst (decodeStep H env u opts res w))"
proof (cases "fetched env u opts")
  case (Inl err)
  from assms have "flushException env opts = None"
    by (cases "flushException env opts") (simp_all add: fsr_error(1)[OF Inl])
  with assms have "r = \<lparr>request = (newRequest env u opts)
                \<lparr>status := Some (if isRequestTimeout err then FETCH_TIMEOUT else FETCH_ERROR),
                 errorMessage := Some (message err)\<rparr>, responseText = NoText\<rparr>"
    by (simp add: fsr_error(1)[OF Inl])
  then have "response (request r) = None" by (simp add: newRequest_def)
  with Inl show ?thesis by simp
next
  case (Inr res)
  from assms have "flushException env opts = None"
    by (cases "flushException env opts") (simp_all add: fsr_response(1)[OF Inr])
  with assms have "r = \<lparr>request = persistedRequest H env u opts res w, responseText = fst (decodeStep H env u opts res w)\<rparr>"
    by (simp add: fsr_response(1)[OF Inr])
  then have "request r = persistedRequest H env u opts res w" "responseText r = fst (decodeStep H env u opts res w)"
    by simp_all
  with Inr show ?thesis by simp
qed

lemma decodeStep_key:
  "redisCacheKey (fst (snd (snd (decodeStep H env u opts res w)))) = Some k \<Longrightarrow> k = H u"
  by (cases "decoded env res"; cases "deflate env (projr (decoded env res))")
     (simp_all add: decodeStep_def decodeAndCache_response newResponse_def)

lemma decodeStep_hash:
  "textHash (fst (snd (snd (decodeStep H env u opts res w)))) = Some h \<Longrightarrow>
   \<exists>t. fst (decodeStep H env u opts res w) = Text t \<and> h = (if t \<noteq> [] then H t else [])"
  by (cases "decoded env res"; cases "deflate env (projr (decoded env res))")
     (simp_all add: decodeStep_def decodeAndCache_response decodeAndCache_text newResponse_def)

lemma fsr_key:
  assumes "fst (fetchAndSaveResponse H env u opts w) = Inr r" "response (request r) = Some rs"
      "redisCacheKey rs = Some k"
  shows "k = H u"
proof -
  from fsr_result_cases[OF assms(1)] assms(2) obtain res where
    "request r = persistedRequest H env u opts res w" by auto
  with assms(2) have "rs = persistedResponse H env u opts res w" by (simp add: persistedRequest_simps)
  with assms(3) have "redisCacheKey (fst (snd (snd (decodeStep H env u opts res w)))) = Some k"
    by (simp add: persistedResponse_simps)
  then show ?thesis by (rule decodeStep_key)
qed

lemma fsr_hash:
  assumes "fst (fetchAndSaveResponse H env u opts w) = Inr r" "response (request r) = Some rs"
      "textHash rs = Some h"
  shows "\<exists>t. responseText r = Text t \<and> h = (if t \<noteq> [] then H t else [])"
proof -
  from fsr_result_cases[OF assms(1)] assms(2) obtain res where
    r: "request r = persistedRequest H env u opts res w" "responseText r = fst (decodeStep H env u opts res w)" by auto
  with assms(2) have "rs = persistedResponse H env u opts res w" by (simp add: persistedRequest_simps)
  with assms(3) have "textHash (fst (snd (snd (decodeStep H env u opts res w)))) = Some h"
    by (simp add: persistedResponse_simps)
  from decodeStep_hash[OF this] r(2) show ?thesis by simp
qed

lemma fsr_key_computed:
  assumes "fst (fetchAndSaveResponse H env u opts w) = Inr r" "fetched env u opts = Inr res"
    "decoded env res = Inr t" "deflate env t = Inr c"
  shows "\<exists>rs. response (request r) = Some rs \<and> redisCacheKey rs = Some (H u) \<and>
              textHash rs = Some (if t \<noteq> [] then H t else [])"
proof -
  from fsr_result_cases[OF assms(1)] assms(2) have "request r = persistedRequest H env u opts res w" by auto
  then show ?thesis using assms(3,4)
    by (simp add: persistedRequest_simps persistedResponse_simps decodeStep_def decodeAndCache_response)
qed

lemma persisted_key_and_hash:
  assumes "fetched env u opts = Inr res"
  shows "\<exists>rs. responseRepo (snd (fetchAndSaveResponse H env u opts w)) = responseRepo w @ [rs] \<and>
          (redisCacheKey rs, textHash rs) =
            (case decoded env res of
               Inl e \<Rightarrow> (None, None)
             | Inr t \<Rightarrow>
                 (case deflate env t of
                    Inl e \<Rightarrow> (None, None)
                  | Inr c \<Rightarrow> (Some (H u), Some (if t \<noteq> [] then H t else []))))"
proof -
  have "(redisCacheKey (persistedResponse H env u opts res w), textHash (persistedResponse H env u opts res w)) =
            (case decoded env res of
               Inl e \<Rightarrow> (None, None)
             | Inr t \<Rightarrow>
                 (case deflate env t of
                    Inl e \<Rightarrow> (None, None)
                  | Inr c \<Rightarrow> (Some (H u), Some (if t \<noteq> [] then H t else []))))"
    by (simp add: persistedResponse_simps decodeStep_def decodeAndCache_response newResponse_def
        split: sum.split)
  with fsr_response(3)[OF assms, of H w] show ?thesis by blast
qed

subsection \<open>The example inputs\<close>

lemma fetched_res0: "fetched env0 url0 opts = Inr res0"
  by (simp add: fetched_def fetchFeedResponse_def env0_def res0_def)

lemma decoded_res0: "decoded env0 res0 = Inr ''<rss/>''"
  by (simp add: decoded_def maybeDecodeResponse_def charsetOf_def NOT_MODIFIED_def env0_def res0_def)

lemma fetched_envBig: "fetched envBig url0 opts = Inr res0"
  by (simp add: fetched_def fetchFeedResponse_def envBig_def env0_def res0_def)

lemma decoded_envBig: "decoded envBig res0 = Inr bigText"
  by (simp add: decoded_def maybeDecodeResponse_def charsetOf_def NOT_MODIFIED_def
      envBig_def env0_def res0_def)

subsection \<open>The claims about the fetcher\<close>

text \<open>
  Claim C3. For a fetch answered with 304 Not Modified the request is persisted with status
  \<open>OK\<close> and the text returned is empty, as the claim says. But the call does write: the
  compressed empty text goes to the cache under the cache key of the url, and to the
  object file storage when that is asked for. Here the url is fetched with answer 200 and
  then with answer 304: the second call appends an entry under the same key to the cache
  and an entry to the object file storage, and \<open>getLatestRequest\<close>, which skips the 304
  request and reads the cache under the key of the request before it, yields the empty
  text where it yielded the feed before.
\<close>

theorem fetchAndSaveResponse_not_modified_overwrites_cache:
  "fetched envNotModified url0 optsAll = Inr \<lparr>fr_status = 304, fr_headers = (\<lambda>n. None)\<rparr>
   \<and> map status (requestRepo fwAfterNotModified) = [Some OK, Some OK]
   \<and> map_sum id responseText (fst (fetchAndSaveResponse H0 envNotModified url0 optsAll fwAfterOk))
       = Inr (Text [])
   \<and> cacheStorage fwAfterOk = [(H0 url0, ''z:<rss/>'')]
   \<and> cacheStorage fwAfterNotModified = [(H0 url0, ''z:<rss/>''), (H0 url0, ''z:'')]
   \<and> objectFileStorage fwAfterOk = []
   \<and> objectFileStorage fwAfterNotModified = [(''uuid-1'', ''z:'')]
   \<and> map_option snd (getLatestRequest env0 url0 fwAfterOk) = Some ''<rss/>''
   \<and> map_option snd (getLatestRequest env0 url0 fwAfterNotModified) = Some []"
proof -
  have 1: "fetched envNotModified url0 optsAll = Inr \<lparr>fr_status = 304, fr_headers = (\<lambda>n. None)\<rparr>"
    by (simp add: fetched_def fetchFeedResponse_def envNotModified_def env0_def)
  have 2: "map status (requestRepo fwAfterNotModified) = [Some OK, Some OK]"
    by code_simp
  have 3: "map_sum id responseText (fst (fetchAndSaveResponse H0 envNotModified url0 optsAll fwAfterOk))
       = Inr (Text [])"
    by code_simp
  have 4: "cacheStorage fwAfterOk = [(H0 url0, ''z:<rss/>'')]"
    by code_simp
  have 5: "cacheStorage fwAfterNotModified = [(H0 url0, ''z:<rss/>''), (H0 url0, ''z:'')]"
    by code_simp
  have 6: "objectFileStorage fwAfterOk = []"
    by code_simp
  have 7: "objectFileStorage fwAfterNotModified = [(''uuid-1'', ''z:'')]"
    by code_simp
  have 8: "map_option snd (getLatestRequest env0 url0 fwAfterOk) = Some ''<rss/>''"
    by code_simp
  have 9: "map_option snd (getLatestRequest env0 url0 fwAfterNotModified) = Some []"
    by code_simp
  from 1 2 3 4 5 6 7 8 9 show ?thesis by (intro conjI)
qed

text \<open>The same for every call: a 304 answer whose empty text is compressed and accepted by
  the cache store is written to the cache.\<close>

lemma not_modified_writes_cache:
  assumes "fetched env u opts = Inr res" and "fr_status res = NOT_MODIFIED"
    and "deflate env [] = Inr c" and "setFeedHtmlContent env (H u) c = None"
  shows "cacheStorage (snd (fetchAndSaveResponse H env u opts w)) = cacheStorage w @ [(H u, c)]"
    and "status (persistedRequest H env u opts res w) = Some OK"
  using assms
  by (simp_all add: fsr_response(4)[OF assms(1)] decodeStep_def decodeAndCache_cache
      decodeAndCache_status persistedRequest_simps decoded_def statusOfResponse_def)

text \<open>
  Claim C4, amended. The check of the size against 3 MB is commented out, so the size of a
  body decides nothing. For a fetch that is answered: the persisted request has status
  \<open>REFUSED_LARGE_FEED\<close> exactly when a \<open>FeedTooLargeException\<close> is thrown by the decoding,
  by the compression or by the write to the cache; a body above the ceiling that is decoded,
  compressed and accepted by the cache store is persisted with the status its HTTP status
  gives and is written to the cache; and when the exception comes from the decoding or the
  compression, nothing is written to the cache or to the object file storage.
\<close>

theorem fetchAndSaveResponse_size_ceiling_not_enforced:
  fixes H env u opts w
  defines "R \<equiv> fetchAndSaveResponse H env u opts w"
  assumes f: "fetched env u opts = Inr res"
  shows "(\<exists>rq. requestRepo (snd R) = requestRepo w @ [rq] \<and>
           (status rq = Some REFUSED_LARGE_FEED \<longleftrightarrow>
              (\<exists>m. decoded env res = Inl (FeedTooLargeException m)) \<or>
              (\<exists>text m. decoded env res = Inr text \<and>
                 (deflate env text = Inl (FeedTooLargeException m) \<or>
                  (\<exists>c. deflate env text = Inr c \<and>
                       setFeedHtmlContent env (H u) c = Some (FeedTooLargeException m)))))
         \<and> (\<forall>text c. exceedsSizeCeiling text \<and> decoded env res = Inr text \<and> deflate env text = Inr c
                \<and> setFeedHtmlContent env (H u) c = None \<longrightarrow>
               status rq = Some (if ok res \<or> fr_status res = NOT_MODIFIED then OK else BAD_STATUS_CODE)
               \<and> cacheStorage (snd R) = cacheStorage w @ [(H u, c)]))
     \<and> ((\<exists>m. decoded env res = Inl (FeedTooLargeException m)) \<or>
         (\<exists>text m. decoded env res = Inr text \<and> deflate env text = Inl (FeedTooLargeException m)) \<longrightarrow>
           cacheStorage (snd R) = cacheStorage w \<and> objectFileStorage (snd R) = objectFileStorage w)"
proof -
  have ftl: "\<And>e. isFeedTooLargeException e \<longleftrightarrow> (\<exists>m. e = FeedTooLargeException m)"
    by (case_tac e) simp_all
  have ne: "OK \<noteq> REFUSED_LARGE_FEED" "BAD_STATUS_CODE \<noteq> REFUSED_LARGE_FEED"
    "PARSE_ERROR \<noteq> REFUSED_LARGE_FEED" by simp_all
  have a: "status (persistedRequest H env u opts res w) = Some REFUSED_LARGE_FEED \<longleftrightarrow>
              (\<exists>m. decoded env res = Inl (FeedTooLargeException m)) \<or>
              (\<exists>text m. decoded env res = Inr text \<and>
                 (deflate env text = Inl (FeedTooLargeException m) \<or>
                  (\<exists>c. deflate env text = Inr c \<and>
                       setFeedHtmlContent env (H u) c = Some (FeedTooLargeException m))))"
    by (auto simp: persistedRequest_simps decodeStep_def decodeAndCache_status statusOfResponse_def ftl
        split: sum.splits option.splits if_splits)
  have b: "\<forall>text c. exceedsSizeCeiling text \<and> decoded env res = Inr text \<and> deflate env text = Inr c
                \<and> setFeedHtmlContent env (H u) c = None \<longrightarrow>
               status (persistedRequest H env u opts res w) =
                 Some (if ok res \<or> fr_status res = NOT_MODIFIED then OK else BAD_STATUS_CODE)
               \<and> cacheStorage (snd R) = cacheStorage w @ [(H u, c)]"
    unfolding R_def fsr_response(4)[OF f]
    by (simp add: persistedRequest_simps decodeStep_def decodeAndCache_status decodeAndCache_cache statusOfResponse_def)
  have c: "(\<exists>m. decoded env res = Inl (FeedTooLargeException m)) \<or>
         (\<exists>text m. decoded env res = Inr text \<and> deflate env text = Inl (FeedTooLargeException m)) \<longrightarrow>
           cacheStorage (snd R) = cacheStorage w \<and> objectFileStorage (snd R) = objectFileStorage w"
    unfolding R_def fsr_response(4,5)[OF f]
    by (auto simp: decodeStep_def decodeAndCache_cache decodeAndCache_objects)
  have r: "requestRepo (snd R) = requestRepo w @ [persistedRequest H env u opts res w]"
    unfolding R_def by (rule fsr_response(2)[OF f])
  from a b c r show ?thesis by blast
qed

theorem fetchAndSaveResponse_size_ceiling_not_enforced_witness:
  "exceedsSizeCeiling bigText
   \<and> fetched envBig url0 None = Inr res0
   \<and> decoded envBig res0 = Inr bigText
   \<and> (\<exists>rq. requestRepo (snd (fetchAndSaveResponse H0 envBig url0 None fw0)) = [rq]
          \<and> status rq = Some OK)
   \<and> cacheStorage (snd (fetchAndSaveResponse H0 envBig url0 None fw0)) = [(H0 url0, ''z:'' @ bigText)]
   \<and> decoded envTooLarge res0 = Inr ''<rss/>''
   \<and> deflate envTooLarge ''<rss/>'' = Inl (FeedTooLargeException ''Response body is too large'')
   \<and> (\<exists>rq. requestRepo (snd (fetchAndSaveResponse H0 envTooLarge url0 optsAll fw0)) = [rq]
          \<and> status rq = Some REFUSED_LARGE_FEED)
   \<and> cacheStorage (snd (fetchAndSaveResponse H0 envTooLarge url0 optsAll fw0)) = []
   \<and> objectFileStorage (snd (fetchAndSaveResponse H0 envTooLarge url0 optsAll fw0)) = []"
proof -
  have x: "exceedsSizeCeiling bigText" by (simp add: exceedsSizeCeiling_def bigText_def)
  have z: "deflate envBig bigText = Inr (''z:'' @ bigText)" by (simp add: envBig_def env0_def)
  have s: "setFeedHtmlContent envBig (H0 url0) (''z:'' @ bigText) = None"
    by (simp add: envBig_def env0_def)
  have o: "ok res0" by (simp add: ok_def res0_def)
  from fetchAndSaveResponse_size_ceiling_not_enforced[OF fetched_envBig, of H0 None fw0] obtain rq where
    rq: "requestRepo (snd (fetchAndSaveResponse H0 envBig url0 None fw0)) = requestRepo fw0 @ [rq]"
    and b: "\<forall>text c. exceedsSizeCeiling text \<and> decoded envBig res0 = Inr text \<and> deflate envBig text = Inr c
                \<and> setFeedHtmlContent envBig (H0 url0) c = None \<longrightarrow>
               status rq = Some (if ok res0 \<or> fr_status res0 = NOT_MODIFIED then OK else BAD_STATUS_CODE)
               \<and> cacheStorage (snd (fetchAndSaveResponse H0 envBig url0 None fw0)) =
                   cacheStorage fw0 @ [(H0 url0, c)]"
    by blast
  from b x decoded_envBig z s o
  have "status rq = Some OK"
    "cacheStorage (snd (fetchAndSaveResponse H0 envBig url0 None fw0)) = cacheStorage fw0 @ [(H0 url0, ''z:'' @ bigText)]"
    by auto
  with rq x fetched_envBig decoded_envBig
  have big: "exceedsSizeCeiling bigText
   \<and> fetched envBig url0 None = Inr res0
   \<and> decoded envBig res0 = Inr bigText
   \<and> (\<exists>rq. requestRepo (snd (fetchAndSaveResponse H0 envBig url0 None fw0)) = [rq]
          \<and> status rq = Some OK)
   \<and> cacheStorage (snd (fetchAndSaveResponse H0 envBig url0 None fw0)) = [(H0 url0, ''z:'' @ bigText)]"
    by (simp add: fw0_def)
  have f': "fetched envTooLarge url0 optsAll = Inr res0"
    by (simp add: fetched_def fetchFeedResponse_def envTooLarge_def env0_def res0_def optsAll_def)
  have d': "decoded envTooLarge res0 = Inr ''<rss/>''"
    by (simp add: decoded_def maybeDecodeResponse_def charsetOf_def NOT_MODIFIED_def
        envTooLarge_def env0_def res0_def)
  have z': "deflate envTooLarge ''<rss/>'' = Inl (FeedTooLargeException ''Response body is too large'')"
    by (simp add: envTooLarge_def env0_def)
  from fetchAndSaveResponse_size_ceiling_not_enforced[OF f', of H0 fw0] obtain rq' where
    rq': "requestRepo (snd (fetchAndSaveResponse H0 envTooLarge url0 optsAll fw0)) = requestRepo fw0 @ [rq']"
    and a': "status rq' = Some REFUSED_LARGE_FEED \<longleftrightarrow>
              (\<exists>m. decoded envTooLarge res0 = Inl (FeedTooLargeException m)) \<or>
              (\<exists>text m. decoded envTooLarge res0 = Inr text \<and>
                 (deflate envTooLarge text = Inl (FeedTooLargeException m) \<or>
                  (\<exists>c. deflate envTooLarge text = Inr c \<and>
                       setFeedHtmlContent envTooLarge (H0 url0) c = Some (FeedTooLargeException m))))"
    and c': "(\<exists>m. decoded envTooLarge res0 = Inl (FeedTooLargeException m)) \<or>
         (\<exists>text m. decoded envTooLarge res0 = Inr text \<and> deflate envTooLarge text = Inl (FeedTooLargeException m)) \<longrightarrow>
           cacheStorage (snd (fetchAndSaveResponse H0 envTooLarge url0 optsAll fw0)) = cacheStorage fw0 \<and>
           objectFileStorage (snd (fetchAndSaveResponse H0 envTooLarge url0 optsAll fw0)) = objectFileStorage fw0"
    by blast
  from a' d' z' have "status rq' = Some REFUSED_LARGE_FEED" by blast
  moreover from c' d' z'
  have "cacheStorage (snd (fetchAndSaveResponse H0 envTooLarge url0 optsAll fw0)) = cacheStorage fw0"
    "objectFileStorage (snd (fetchAndSaveResponse H0 envTooLarge url0 optsAll fw0)) = objectFileStorage fw0"
    by blast+
  ultimately have small: "(\<exists>rq. requestRepo (snd (fetchAndSaveResponse H0 envTooLarge url0 optsAll fw0)) = [rq]
          \<and> status rq = Some REFUSED_LARGE_FEED)
   \<and> cacheStorage (snd (fetchAndSaveResponse H0 envTooLarge url0 optsAll fw0)) = []
   \<and> objectFileStorage (snd (fetchAndSaveResponse H0 envTooLarge url0 optsAll fw0)) = []"
    using rq' by (simp add: fw0_def)
  from big d' z' small show ?thesis by blast
qed

text \<open>
  Claim C4 as stated fails: a body of 3 MB and one byte, answered with 200, is persisted with
  status \<open>OK\<close>, written to the cache and, when asked for, to the object file storage.
\<close>

theorem fetchAndSaveResponse_large_body_counterexample:
  "exceedsSizeCeiling bigText
   \<and> decoded envBig res0 = Inr bigText
   \<and> fetched envBig url0 optsAll = Inr res0
   \<and> map status (requestRepo (snd (fetchAndSaveResponse H0 envBig url0 optsAll fw0))) = [Some OK]
   \<and> cacheStorage (snd (fetchAndSaveResponse H0 envBig url0 optsAll fw0)) = [(H0 url0, ''z:'' @ bigText)]
   \<and> objectFileStorage (snd (fetchAndSaveResponse H0 envBig url0 optsAll fw0)) = [(''uuid-1'', ''z:'' @ bigText)]"
proof -
  have x: "exceedsSizeCeiling bigText" by (simp add: exceedsSizeCeiling_def bigText_def)
  have o: "ok res0" by (simp add: ok_def res0_def)
  have st: "fst (snd (decodeStep H0 envBig url0 optsAll res0 fw0)) = OK"
    by (simp add: decodeStep_def decodeAndCache_status decoded_envBig statusOfResponse_def o)
       (simp add: envBig_def env0_def)
  have ca: "cacheStorage (snd (snd (snd (decodeStep H0 envBig url0 optsAll res0 fw0)))) = [(H0 url0, ''z:'' @ bigText)]"
    by (simp add: decodeStep_def decodeAndCache_cache decoded_envBig)
       (simp add: envBig_def env0_def fw0_def)
  have ob: "objectFileStorage (snd (snd (snd (decodeStep H0 envBig url0 optsAll res0 fw0)))) = [(''uuid-1'', ''z:'' @ bigText)]"
    by (simp add: decodeStep_def decodeAndCache_objects decoded_envBig)
       (simp add: envBig_def env0_def fw0_def optsAll_def)
  show ?thesis
    using x decoded_envBig fetched_envBig[of optsAll]
    by (simp add: fsr_response(2,4,5)[OF fetched_envBig] persistedRequest_simps st ca ob) (simp add: fw0_def)
qed

text \<open>
  Claim C5, amended. \<open>fetchAndSaveResponse\<close> rejects exactly when \<open>flushEntities\<close> is set
  and the \<open>flush\<close> of the \<open>finally\<close> block rejects, and then with the exception of the
  flush; nothing else reaches the caller. Every call persists one request of the url with a
  status, which is the request it returns when it resolves. When the fetch throws, the
  request has status \<open>FETCH_TIMEOUT\<close> for a \<open>FetchError\<close> of type \<open>request-timeout\<close> and
  \<open>FETCH_ERROR\<close> for any other exception, with the message of the exception; no response is
  persisted and nothing is written to the cache or to the object file storage.
\<close>

theorem fetchAndSaveResponse_rejects_only_by_flush:
  fixes H env u opts w
  defines "R \<equiv> fetchAndSaveResponse H env u opts w"
  shows "(\<forall>e. fst R = Inl e \<longleftrightarrow> flushException env opts = Some e)
    \<and> (\<exists>rq. requestRepo (snd R) = requestRepo w @ [rq] \<and> rq_url rq = u \<and> status rq \<noteq> None
            \<and> (\<forall>r. fst R = Inr r \<longrightarrow> request r = rq))
    \<and> (\<forall>err. fetched env u opts = Inl err \<longrightarrow>
          requestRepo (snd R) =
            requestRepo w @ [(newRequest env u opts)
               \<lparr>status := Some (if isRequestTimeout err then FETCH_TIMEOUT else FETCH_ERROR),
                errorMessage := Some (message err)\<rparr>]
          \<and> responseRepo (snd R) = responseRepo w
          \<and> cacheStorage (snd R) = cacheStorage w
          \<and> objectFileStorage (snd R) = objectFileStorage w
          \<and> (flushException env opts = None \<longrightarrow>
               fst R = Inr \<lparr>request = (newRequest env u opts)
                   \<lparr>status := Some (if isRequestTimeout err then FETCH_TIMEOUT else FETCH_ERROR),
                    errorMessage := Some (message err)\<rparr>, responseText = NoText\<rparr>))"
proof -
  have 1: "\<forall>e. fst R = Inl e \<longleftrightarrow> flushException env opts = Some e"
    unfolding R_def by (simp add: fsr_rejects_iff)
  have 2: "\<exists>rq. requestRepo (snd R) = requestRepo w @ [rq] \<and> rq_url rq = u \<and> status rq \<noteq> None
            \<and> (\<forall>r. fst R = Inr r \<longrightarrow> request r = rq)"
  proof (cases "fetched env u opts")
    case (Inl err)
    show ?thesis
      unfolding R_def
      by (rule exI[of _ "(newRequest env u opts)
               \<lparr>status := Some (if isRequestTimeout err then FETCH_TIMEOUT else FETCH_ERROR),
                errorMessage := Some (message err)\<rparr>"])
         (auto simp: fsr_error[OF Inl] newRequest_def split: option.splits)
  next
    case (Inr res)
    show ?thesis
      unfolding R_def
      by (rule exI[of _ "persistedRequest H env u opts res w"])
         (auto simp: fsr_response[OF Inr] persistedRequest_simps split: option.splits)
  qed
  have 3: "\<forall>err. fetched env u opts = Inl err \<longrightarrow>
          requestRepo (snd R) =
            requestRepo w @ [(newRequest env u opts)
               \<lparr>status := Some (if isRequestTimeout err then FETCH_TIMEOUT else FETCH_ERROR),
                errorMessage := Some (message err)\<rparr>]
          \<and> responseRepo (snd R) = responseRepo w
          \<and> cacheStorage (snd R) = cacheStorage w
          \<and> objectFileStorage (snd R) = objectFileStorage w
          \<and> (flushException env opts = None \<longrightarrow>
               fst R = Inr \<lparr>request = (newRequest env u opts)
                   \<lparr>status := Some (if isRequestTimeout err then FETCH_TIMEOUT else FETCH_ERROR),
                    errorMessage := Some (message err)\<rparr>, responseText = NoText\<rparr>)"
    unfolding R_def by (intro allI impI) (simp add: fsr_error)
  from 1 2 3 show ?thesis by blast
qed

theorem fetchAndSaveResponse_rejects_only_by_flush_witness:
  "fetched envTimeout url0 None = Inl (FetchError ''request-timeout'' ''network timeout'')
   \<and> flushException envTimeout None = None
   \<and> fst (fetchAndSaveResponse H0 envTimeout url0 None fw0) =
       Inr \<lparr>request = (newRequest envTimeout url0 None)
                \<lparr>status := Some FETCH_TIMEOUT, errorMessage := Some ''network timeout''\<rparr>,
            responseText = NoText\<rparr>"
proof -
  have f: "fetched envTimeout url0 None = Inl (FetchError ''request-timeout'' ''network timeout'')"
    by (simp add: fetched_def fetchFeedResponse_def envTimeout_def env0_def)
  have n: "flushException envTimeout None = None"
    by (simp add: flushException_def)
  from fetchAndSaveResponse_rejects_only_by_flush[of H0 envTimeout url0 None fw0] f n show ?thesis by simp
qed

text \<open>
  Claim C5 as stated fails: the fetch times out, \<open>flushEntities\<close> is set and the flush is
  rejected; the call rejects with the exception of the flush.
\<close>

theorem fetchAndSaveResponse_flush_counterexample:
  "fetched envTimeout url0 optsAll = Inl (FetchError ''request-timeout'' ''network timeout'')
   \<and> fst (fetchAndSaveResponse H0 envTimeout url0 optsAll fw0) = Inl (Error ''Connection terminated'')"
  by (simp add: fetchAndSaveResponse_eq fetched_def fetchFeedResponse_def finallyBlock_def
      envTimeout_def env0_def optsAll_def)

text \<open>
  Claim C7, amended. The cache key that \<open>fetchAndSaveResponse\<close> computes is the digest of
  the url and of nothing else. Every fetch of a url whose body is decoded and compressed
  persists a response with that cache key and with the digest of the text as text hash
  (the empty string for an empty text), with any collaborators, options and worlds; so two
  such fetches of one url have the same cache key and, when the text is the same, the same
  text hash. A fetch whose decoding or compression throws persists its response with
  neither a cache key nor a text hash.
\<close>

theorem fetchAndSaveResponse_cacheKey_of_url:
  fixes H u env1 opts1 w1 env2 opts2 w2
  defines "R1 \<equiv> fetchAndSaveResponse H env1 u opts1 w1"
  defines "R2 \<equiv> fetchAndSaveResponse H env2 u opts2 w2"
  shows "(\<forall>r1 r2 rs1 rs2.
            fst R1 = Inr r1 \<and> fst R2 = Inr r2 \<and>
            response (request r1) = Some rs1 \<and> response (request r2) = Some rs2 \<longrightarrow>
              (\<forall>k1 k2. redisCacheKey rs1 = Some k1 \<and> redisCacheKey rs2 = Some k2 \<longrightarrow>
                         k1 = k2 \<and> k1 = H u)
            \<and> (\<forall>h1 h2. textHash rs1 = Some h1 \<and> textHash rs2 = Some h2 \<and>
                         responseText r1 = responseText r2 \<longrightarrow> h1 = h2))
     \<and> (\<forall>r1 res text c.
            fst R1 = Inr r1 \<and> fetched env1 u opts1 = Inr res \<and> decoded env1 res = Inr text \<and>
            deflate env1 text = Inr c \<longrightarrow>
              (\<exists>rs. response (request r1) = Some rs \<and> redisCacheKey rs = Some (H u) \<and>
                    textHash rs = Some (if text \<noteq> [] then H text else [])))
     \<and> (\<forall>res. fetched env1 u opts1 = Inr res \<longrightarrow>
            (\<exists>rs. responseRepo (snd R1) = responseRepo w1 @ [rs] \<and>
               (redisCacheKey rs, textHash rs) =
                 (case decoded env1 res of
                    Inl e \<Rightarrow> (None, None)
                  | Inr text \<Rightarrow>
                      (case deflate env1 text of
                         Inl e \<Rightarrow> (None, None)
                       | Inr c \<Rightarrow> (Some (H u), Some (if text \<noteq> [] then H text else []))))))"
proof -
  have 1: "\<forall>r1 r2 rs1 rs2.
            fst R1 = Inr r1 \<and> fst R2 = Inr r2 \<and>
            response (request r1) = Some rs1 \<and> response (request r2) = Some rs2 \<longrightarrow>
              (\<forall>k1 k2. redisCacheKey rs1 = Some k1 \<and> redisCacheKey rs2 = Some k2 \<longrightarrow>
                         k1 = k2 \<and> k1 = H u)
            \<and> (\<forall>h1 h2. textHash rs1 = Some h1 \<and> textHash rs2 = Some h2 \<and>
                         responseText r1 = responseText r2 \<longrightarrow> h1 = h2)"
  proof (intro allI impI conjI; elim conjE)
    fix r1 r2 rs1 rs2 k1 k2
    assume a: "fst R1 = Inr r1" "fst R2 = Inr r2" "response (request r1) = Some rs1"
      "response (request r2) = Some rs2" "redisCacheKey rs1 = Some k1" "redisCacheKey rs2 = Some k2"
    have "k1 = H u" by (rule fsr_key[OF a(1)[unfolded R1_def] a(3) a(5)])
    moreover have "k2 = H u" by (rule fsr_key[OF a(2)[unfolded R2_def] a(4) a(6)])
    ultimately show "k1 = k2" "k1 = H u" by simp_all
  next
    fix r1 r2 rs1 rs2 h1 h2
    assume a: "fst R1 = Inr r1" "fst R2 = Inr r2" "response (request r1) = Some rs1"
      "response (request r2) = Some rs2" "textHash rs1 = Some h1" "textHash rs2 = Some h2"
      "responseText r1 = responseText r2"
    from fsr_hash[OF a(1)[unfolded R1_def] a(3) a(5)] obtain t1 where
      t1: "responseText r1 = Text t1" "h1 = (if t1 \<noteq> [] then H t1 else [])" by blast
    from fsr_hash[OF a(2)[unfolded R2_def] a(4) a(6)] obtain t2 where
      t2: "responseText r2 = Text t2" "h2 = (if t2 \<noteq> [] then H t2 else [])" by blast
    from t1(1) t2(1) a(7) have "t1 = t2" by simp
    with t1(2) t2(2) show "h1 = h2" by simp
  qed
  have 2: "\<forall>r1 res text c.
            fst R1 = Inr r1 \<and> fetched env1 u opts1 = Inr res \<and> decoded env1 res = Inr text \<and>
            deflate env1 text = Inr c \<longrightarrow>
              (\<exists>rs. response (request r1) = Some rs \<and> redisCacheKey rs = Some (H u) \<and>
                    textHash rs = Some (if text \<noteq> [] then H text else []))"
    unfolding R1_def by (intro allI impI, elim conjE) (rule fsr_key_computed)
  have 3: "\<forall>res. fetched env1 u opts1 = Inr res \<longrightarrow>
            (\<exists>rs. responseRepo (snd R1) = responseRepo w1 @ [rs] \<and>
               (redisCacheKey rs, textHash rs) =
                 (case decoded env1 res of
                    Inl e \<Rightarrow> (None, None)
                  | Inr text \<Rightarrow>
                      (case deflate env1 text of
                         Inl e \<Rightarrow> (None, None)
                       | Inr c \<Rightarrow> (Some (H u), Some (if text \<noteq> [] then H text else [])))))"
    unfolding R1_def by (intro allI impI) (rule persisted_key_and_hash)
  from 1 2 3 show ?thesis by blast
qed

theorem fetchAndSaveResponse_cacheKey_of_url_witness:
  "\<exists>r1 r2 rs1 rs2.
      fst (fetchAndSaveResponse H0 env0 url0 None fw0) = Inr r1
    \<and> fst (fetchAndSaveResponse H0 (env0\<lparr>newDate := 7\<rparr>) url0 optsAll fwAfterNotModified) = Inr r2
    \<and> response (request r1) = Some rs1 \<and> response (request r2) = Some rs2
    \<and> redisCacheKey rs1 = Some (H0 url0) \<and> redisCacheKey rs2 = Some (H0 url0)
    \<and> responseText r1 = responseText r2
    \<and> textHash rs1 = Some (H0 ''<rss/>'') \<and> textHash rs2 = Some (H0 ''<rss/>'')
    \<and> fetched envBadCharset url0 None = Inr resBadCharset
    \<and> (\<exists>e. decoded envBadCharset resBadCharset = Inl e)
    \<and> (\<exists>rs. responseRepo (snd (fetchAndSaveResponse H0 envBadCharset url0 None fwAfterOk)) =
                responseRepo fwAfterOk @ [rs]
              \<and> redisCacheKey rs = None \<and> textHash rs = None)"
proof -
  let ?env2 = "env0\<lparr>newDate := 7\<rparr>"
  let ?R1 = "fetchAndSaveResponse H0 env0 url0 None fw0"
  let ?R2 = "fetchAndSaveResponse H0 ?env2 url0 optsAll fwAfterNotModified"
  have f2: "fetched ?env2 url0 optsAll = Inr res0"
    by (simp add: fetched_def fetchFeedResponse_def env0_def res0_def)
  have d2: "decoded ?env2 res0 = Inr ''<rss/>''"
    by (simp add: decoded_def maybeDecodeResponse_def charsetOf_def NOT_MODIFIED_def env0_def res0_def)
  have z1: "deflate env0 ''<rss/>'' = Inr ''z:<rss/>''" by (simp add: env0_def)
  have z2: "deflate ?env2 ''<rss/>'' = Inr ''z:<rss/>''" by (simp add: env0_def)
  have "flushException env0 None = None" by (simp add: flushException_def)
  then obtain r1 where r1: "fst ?R1 = Inr r1"
    by (cases "fst ?R1") (simp_all add: fsr_rejects_iff)
  have "flushException ?env2 optsAll = None" by (simp add: flushException_def optsAll_def env0_def)
  then obtain r2 where r2: "fst ?R2 = Inr r2"
    by (cases "fst ?R2") (simp_all add: fsr_rejects_iff)
  have "\<exists>rs. response (request r1) = Some rs \<and> redisCacheKey rs = Some (H0 url0) \<and>
          textHash rs = Some (if ''<rss/>'' \<noteq> [] then H0 ''<rss/>'' else [])"
    by (rule fetchAndSaveResponse_cacheKey_of_url[of H0 env0 url0 None fw0 ?env2 optsAll
          fwAfterNotModified, THEN conjunct2, THEN conjunct1, rule_format, of r1 res0 "''<rss/>''" "''z:<rss/>''"])
       (intro conjI r1 fetched_res0 decoded_res0 z1)
  then obtain rs1 where rs1: "response (request r1) = Some rs1" "redisCacheKey rs1 = Some (H0 url0)"
    "textHash rs1 = Some (H0 ''<rss/>'')" by auto
  have "\<exists>rs. response (request r2) = Some rs \<and> redisCacheKey rs = Some (H0 url0) \<and>
          textHash rs = Some (if ''<rss/>'' \<noteq> [] then H0 ''<rss/>'' else [])"
    by (rule fetchAndSaveResponse_cacheKey_of_url[of H0 ?env2 url0 optsAll fwAfterNotModified
          env0 None fw0, THEN conjunct2, THEN conjunct1, rule_format, of r2 res0 "''<rss/>''" "''z:<rss/>''"])
       (intro conjI r2 f2 d2 z2)
  then obtain rs2 where rs2: "response (request r2) = Some rs2" "redisCacheKey rs2 = Some (H0 url0)"
    "textHash rs2 = Some (H0 ''<rss/>'')" by auto
  have t1: "responseText r1 = Text ''<rss/>''"
    using r1 fsr_response(1)[OF fetched_res0, of H0 None fw0]
    by (auto simp: flushException_def decodeStep_def decodeAndCache_text decoded_res0)
  have t2: "responseText r2 = Text ''<rss/>''"
    using r2 fsr_response(1)[OF f2, of H0 fwAfterNotModified] \<open>flushException ?env2 optsAll = None\<close>
    by (auto simp: decodeStep_def decodeAndCache_text d2)
  have f3: "fetched envBadCharset url0 None = Inr resBadCharset"
    by (simp add: fetched_def fetchFeedResponse_def envBadCharset_def env0_def)
  have d3: "decoded envBadCharset resBadCharset =
              Inl (Error ''Cannot read properties of undefined (reading 'trim')'')"
    by code_simp
  have "\<exists>rs. responseRepo (snd (fetchAndSaveResponse H0 envBadCharset url0 None fwAfterOk)) =
                responseRepo fwAfterOk @ [rs]
              \<and> (redisCacheKey rs, textHash rs) =
                 (case decoded envBadCharset resBadCharset of
                    Inl e \<Rightarrow> (None, None)
                  | Inr text \<Rightarrow>
                      (case deflate envBadCharset text of
                         Inl e \<Rightarrow> (None, None)
                       | Inr c \<Rightarrow> (Some (H0 url0), Some (if text \<noteq> [] then H0 text else []))))"
    by (rule fetchAndSaveResponse_cacheKey_of_url[of H0 envBadCharset url0 None fwAfterOk env0 None
          fw0, THEN conjunct2, THEN conjunct2, rule_format, of resBadCharset]) (rule f3)
  then have unset: "\<exists>rs. responseRepo (snd (fetchAndSaveResponse H0 envBadCharset url0 None fwAfterOk)) =
                responseRepo fwAfterOk @ [rs]
              \<and> redisCacheKey rs = None \<and> textHash rs = None"
    by (simp add: d3)
  have "\<exists>e. decoded envBadCharset resBadCharset = Inl e" using d3 by blast
  with r1 r2 rs1 rs2 t1 t2 f3 unset show ?thesis
    by (intro exI[of _ r1] exI[of _ r2] exI[of _ rs1] exI[of _ rs2]) simp
qed

text \<open>
  Claim C7 as stated fails: two fetches of one url do not always give responses with the
  same cache key. After a fetch answered with 200, a fetch of the same url whose
  \<open>content-type\<close> makes the decoding throw persists a response without cache key.
\<close>

theorem fetchAndSaveResponse_unset_key_counterexample:
  "map redisCacheKey (responseRepo (snd (fetchAndSaveResponse H0 envBadCharset url0 None fwAfterOk)))
     = [Some (H0 url0), None]
   \<and> map status (requestRepo (snd (fetchAndSaveResponse H0 envBadCharset url0 None fwAfterOk)))
     = [Some OK, Some PARSE_ERROR]"
proof -
  have 1: "map redisCacheKey (responseRepo (snd (fetchAndSaveResponse H0 envBadCharset url0 None fwAfterOk)))
     = [Some (H0 url0), None]"
    by code_simp
  have 2: "map status (requestRepo (snd (fetchAndSaveResponse H0 envBadCharset url0 None fwAfterOk)))
     = [Some OK, Some PARSE_ERROR]"
    by code_simp
  from 1 2 show ?thesis by (intro conjI)
qed

text \<open>
  Claim C10, amended. For a fetch that is answered and whose body is decoded, when the
  compression or the write to the cache throws an exception that is no
  \<open>FeedTooLargeException\<close>: the failure is logged, the cache is left as it was, the
  response and the request are persisted, and the request has the status that the HTTP
  status gives (\<open>OK\<close> or \<open>BAD_STATUS_CODE\<close>). The call returns that request with the
  decoded text, unless \<open>flushEntities\<close> is set and the \<open>flush\<close> of the \<open>finally\<close> block
  rejects: then it rejects with the exception of the flush.
\<close>

theorem fetchAndSaveResponse_cache_failure_not_fatal:
  fixes H env u opts w
  defines "R \<equiv> fetchAndSaveResponse H env u opts w"
  assumes f: "fetched env u opts = Inr res"
    and d: "decoded env res = Inr text"
    and c: "deflate env text = Inl err \<or>
            (\<exists>c. deflate env text = Inr c \<and> setFeedHtmlContent env (H u) c = Some err)"
    and n: "\<not> isFeedTooLargeException err"
  shows "\<exists>rq rs. requestRepo (snd R) = requestRepo w @ [rq]
           \<and> responseRepo (snd R) = responseRepo w @ [rs]
           \<and> rq_url rq = u \<and> response rq = Some rs \<and> statusCode rs = fr_status res
           \<and> status rq = Some (if ok res \<or> fr_status res = NOT_MODIFIED then OK else BAD_STATUS_CODE)
           \<and> LogError (''Failed to upload feed html content for url '' @ u @ '' to cache'')
                \<in> set (logged (snd R))
           \<and> cacheStorage (snd R) = cacheStorage w
           \<and> fst R = (case flushException env opts of
                         None \<Rightarrow> Inr \<lparr>request = rq, responseText = Text text\<rparr>
                       | Some e \<Rightarrow> Inl e)"
proof -
  have st: "fst (snd (decodeStep H env u opts res w)) = statusOfResponse res"
    using d c n by (auto simp: decodeStep_def decodeAndCache_status)
  have tx: "fst (decodeStep H env u opts res w) = Text text"
    using d by (simp add: decodeStep_def decodeAndCache_text)
  have lg: "LogError (''Failed to upload feed html content for url '' @ u @ '' to cache'')
                \<in> set (logged (snd R))"
    unfolding R_def fsr_response(6)[OF f] decodeStep_def by (rule decodeAndCache_logged[of env res "text" err H u, OF d c n])
  have ca: "cacheStorage (snd R) = cacheStorage w"
    unfolding R_def fsr_response(4)[OF f] decodeStep_def using d c
    by (auto simp: decodeAndCache_cache)
  show ?thesis
    apply (rule exI[of _ "persistedRequest H env u opts res w"], rule exI[of _ "persistedResponse H env u opts res w"])
    using lg ca
    by (simp add: R_def fsr_response(1,2,3)[OF f] persistedRequest_simps persistedResponse_simps st tx statusOfResponse_def
        split: option.split)
qed

theorem fetchAndSaveResponse_cache_failure_not_fatal_witness:
  "fetched envCacheDown url0 optsAll = Inr res0
   \<and> decoded envCacheDown res0 = Inr ''<rss/>''
   \<and> deflate envCacheDown ''<rss/>'' = Inr ''z:<rss/>''
   \<and> setFeedHtmlContent envCacheDown (H0 url0) ''z:<rss/>'' = Some (Error ''ECONNREFUSED'')
   \<and> \<not> isFeedTooLargeException (Error ''ECONNREFUSED'')
   \<and> flushException envCacheDown optsAll = None
   \<and> (\<exists>rq rs. requestRepo (snd (fetchAndSaveResponse H0 envCacheDown url0 optsAll fw0)) = [rq]
          \<and> responseRepo (snd (fetchAndSaveResponse H0 envCacheDown url0 optsAll fw0)) = [rs]
          \<and> response rq = Some rs \<and> status rq = Some OK
          \<and> fst (fetchAndSaveResponse H0 envCacheDown url0 optsAll fw0) =
               Inr \<lparr>request = rq, responseText = Text ''<rss/>''\<rparr>)"
proof -
  have f: "fetched envCacheDown url0 optsAll = Inr res0"
    by (simp add: fetched_def fetchFeedResponse_def envCacheDown_def env0_def res0_def)
  have d: "decoded envCacheDown res0 = Inr ''<rss/>''"
    by (simp add: decoded_def maybeDecodeResponse_def charsetOf_def NOT_MODIFIED_def
        envCacheDown_def env0_def res0_def)
  have z: "deflate envCacheDown ''<rss/>'' = Inr ''z:<rss/>''"
    by (simp add: envCacheDown_def env0_def)
  have s: "setFeedHtmlContent envCacheDown (H0 url0) ''z:<rss/>'' = Some (Error ''ECONNREFUSED'')"
    by (simp add: envCacheDown_def env0_def)
  have c: "deflate envCacheDown ''<rss/>'' = Inl (Error ''ECONNREFUSED'') \<or>
           (\<exists>c. deflate envCacheDown ''<rss/>'' = Inr c \<and>
                setFeedHtmlContent envCacheDown (H0 url0) c = Some (Error ''ECONNREFUSED''))"
    using z s by simp
  have n: "\<not> isFeedTooLargeException (Error ''ECONNREFUSED'')" by simp
  have o: "ok res0" by (simp add: ok_def res0_def)
  have fl: "flushException envCacheDown optsAll = None"
    by (simp add: flushException_def optsAll_def envCacheDown_def env0_def)
  from fetchAndSaveResponse_cache_failure_not_fatal[where H = H0 and w = fw0, OF f d c n] o fl
  have "\<exists>rq rs. requestRepo (snd (fetchAndSaveResponse H0 envCacheDown url0 optsAll fw0)) = [rq]
          \<and> responseRepo (snd (fetchAndSaveResponse H0 envCacheDown url0 optsAll fw0)) = [rs]
          \<and> response rq = Some rs \<and> status rq = Some OK
          \<and> fst (fetchAndSaveResponse H0 envCacheDown url0 optsAll fw0) =
               Inr \<lparr>request = rq, responseText = Text ''<rss/>''\<rparr>"
    by (simp add: fw0_def) blast
  with f d z s n fl show ?thesis by blast
qed

text \<open>
  Claim C10 as stated fails: the cache store rejects the write, \<open>flushEntities\<close> is set and
  the flush is rejected; the pair is persisted but the call rejects and returns nothing.
\<close>

theorem fetchAndSaveResponse_cache_failure_flush_counterexample:
  "fetched envCacheDownNoFlush url0 optsAll = Inr res0
   \<and> decoded envCacheDownNoFlush res0 = Inr ''<rss/>''
   \<and> deflate envCacheDownNoFlush ''<rss/>'' = Inr ''z:<rss/>''
   \<and> setFeedHtmlContent envCacheDownNoFlush (H0 url0) ''z:<rss/>'' = Some (Error ''ECONNREFUSED'')
   \<and> fst (fetchAndSaveResponse H0 envCacheDownNoFlush url0 optsAll fw0) =
       Inl (Error ''Connection terminated'')"
proof -
  have 1: "fetched envCacheDownNoFlush url0 optsAll = Inr res0"
    by (simp add: fetched_def fetchFeedResponse_def envCacheDownNoFlush_def envCacheDown_def
        env0_def res0_def)
  have 2: "decoded envCacheDownNoFlush res0 = Inr ''<rss/>''"
    by (simp add: decoded_def maybeDecodeResponse_def charsetOf_def NOT_MODIFIED_def
        envCacheDownNoFlush_def envCacheDown_def env0_def res0_def)
  have 3: "deflate envCacheDownNoFlush ''<rss/>'' = Inr ''z:<rss/>''"
    by (simp add: envCacheDownNoFlush_def envCacheDown_def env0_def)
  have 4: "setFeedHtmlContent envCacheDownNoFlush (H0 url0) ''z:<rss/>'' = Some (Error ''ECONNREFUSED'')"
    by (simp add: envCacheDownNoFlush_def envCacheDown_def env0_def)
  have 5: "fst (fetchAndSaveResponse H0 envCacheDownNoFlush url0 optsAll fw0) =
       Inl (Error ''Connection terminated'')"
    by code_simp
  from 1 2 3 4 5 show ?thesis by (intro conjI)
qed

section \<open>Properties of the Discord medium\<close>

lemma urls_differ: "getWebhookApiUrl i t \<noteq> getChannelApiUrl c"
  by (simp add: getWebhookApiUrl_def getChannelApiUrl_def)

lemma enqueueAll_world: "enqueued (snd (enqueueAll env calls w)) = enqueued w @ calls"
  "errors (snd (enqueueAll env calls w)) = errors w"
  by (simp_all add: enqueueAll_def)

lemma enqueueAll_fst:
  "fst (enqueueAll env calls w) =
     (case List.find (\<lambda>c. enqueue env c \<noteq> None) calls of None \<Rightarrow> None | Some c \<Rightarrow> enqueue env c)"
  by (simp add: enqueueAll_def)

lemma deliverArticleToWebhook_alt:
  "deliverArticleToWebhook env a wh details w =
     (case fst (enqueueAll env (webhookCalls env a wh details) w) of
        Some err \<Rightarrow> Inl err
      | None \<Rightarrow> Inr \<lparr>ds_id = deliveryId details, ds_mediumId = mediumId details,
                     ds_status = PendingDelivery, ds_errorCode = None, ds_internalMessage = None\<rparr>,
      w\<lparr>enqueued := enqueued w @ webhookCalls env a wh details\<rparr>)"
  by (simp add: deliverArticleToWebhook_def webhookCalls_def webhookCall_def[abs_def] enqueueAll_def Let_def
      split: option.split)

lemma deliverArticle_none:
  assumes "channel (deliverySettings details) = None" "webhook (deliverySettings details) = None"
  shows "deliverArticle env a details w =
     (\<lparr>ds_id = deliveryId details, ds_mediumId = mediumId details, ds_status = Failed,
       ds_errorCode = Some NoChannelOrWebhook,
       ds_internalMessage = Some ''No channel or webhook specified''\<rparr>, w)"
  using assms by (simp add: deliverArticle_def)

lemma deliverArticle_webhook:
  assumes "webhook (deliverySettings details) = Some wh"
  shows "deliverArticle env a details w =
     (case deliverArticleToWebhook env a wh details w of
        (Inr state, w') \<Rightarrow> (state, w')
      | (Inl err, w') \<Rightarrow>
          (\<lparr>ds_id = deliveryId details, ds_mediumId = mediumId details, ds_status = Failed,
            ds_errorCode = Some Internal, ds_internalMessage = Some (message err)\<rparr>,
           w'\<lparr>errors := errors w' @
              [FailedToDeliver (map_of (flattened a) ''id'') (Some wh) (channel (deliverySettings details)) err]\<rparr>))"
  using assms by (simp add: deliverArticle_def)

lemma payloads_single:
  "\<exists>p. generateApiPayloads env a es c None = [p]"
  by (simp add: generateApiPayloads_def Let_def)

lemma deliverArticle_webhook_world:
  assumes "webhook (deliverySettings details) = Some wh"
  shows "enqueued (snd (deliverArticle env a details w)) = enqueued w @ webhookCalls env a wh details"
    and "fst (deliverArticle env a details w) =
      (case fst (enqueueAll env (webhookCalls env a wh details) w) of
         None \<Rightarrow> \<lparr>ds_id = deliveryId details, ds_mediumId = mediumId details,
                   ds_status = PendingDelivery, ds_errorCode = None, ds_internalMessage = None\<rparr>
       | Some err \<Rightarrow> \<lparr>ds_id = deliveryId details, ds_mediumId = mediumId details, ds_status = Failed,
                       ds_errorCode = Some Internal, ds_internalMessage = Some (message err)\<rparr>)"
  by (simp_all add: deliverArticle_webhook[OF assms] deliverArticleToWebhook_alt split: option.split)

lemma webhookCalls_channel_irrelevant:
  "webhookCalls env a wh (details\<lparr>deliverySettings := (deliverySettings details)\<lparr>channel := ch\<rparr>\<rparr>) =
   webhookCalls env a wh details"
  by (simp add: webhookCalls_def webhookCall_def[abs_def])

lemma enqueueAll_fst_world: "fst (enqueueAll env calls w) = fst (enqueueAll env calls w')"
  by (simp add: enqueueAll_def)

lemma find_None_enqueue:
  "(List.find (\<lambda>c. enqueue env c \<noteq> None) calls = None) \<longleftrightarrow> (\<forall>c \<in> set calls. enqueue env c = None)"
  by (auto simp: find_None_iff)

subsection \<open>The claims about the Discord medium\<close>

text \<open>
  Claim C2. For every article and every delivery details in which neither a channel nor a
  webhook is given, \<open>deliverArticle\<close> returns the state \<open>Failed\<close> with the error code
  \<open>NoChannelOrWebhook\<close>, the delivery id and the medium id of the details, and leaves the
  world as it is: the producer receives no call and nothing is logged.
\<close>

theorem deliverArticle_no_channel_or_webhook:
  assumes "channel (deliverySettings details) = None" and "webhook (deliverySettings details) = None"
  shows "fst (deliverArticle env a details w) =
           \<lparr>ds_id = deliveryId details, ds_mediumId = mediumId details, ds_status = Failed,
            ds_errorCode = Some NoChannelOrWebhook,
            ds_internalMessage = Some ''No channel or webhook specified''\<rparr>
       \<and> snd (deliverArticle env a details w) = w
       \<and> newCalls w (snd (deliverArticle env a details w)) = []"
  by (simp add: deliverArticle_none[OF assms] newCalls_def)

theorem deliverArticle_no_channel_or_webhook_witness:
  "channel (deliverySettings details0) = None \<and> webhook (deliverySettings details0) = None
   \<and> ds_status (fst (deliverArticle denv0 article0 details0 dw0)) = Failed
   \<and> ds_errorCode (fst (deliverArticle denv0 article0 details0 dw0)) = Some NoChannelOrWebhook
   \<and> ds_id (fst (deliverArticle denv0 article0 details0 dw0)) = ''delivery-1''
   \<and> ds_mediumId (fst (deliverArticle denv0 article0 details0 dw0)) = ''medium-1''
   \<and> enqueued (snd (deliverArticle denv0 article0 details0 dw0)) = []"
proof -
  have c: "channel (deliverySettings details0) = None" by (simp add: details0_def)
  have h: "webhook (deliverySettings details0) = None" by (simp add: details0_def)
  from deliverArticle_no_channel_or_webhook[OF c h, where env = denv0 and a = article0 and w = dw0] c h show ?thesis
    by (simp add: details0_def dw0_def)
qed

text \<open>
  Claim C9. For every article and every delivery details with a webhook, whether or not a
  channel is given as well: the producer receives one call per payload (exactly one, as
  the content is not split), each to the url of the webhook and tagged with the id of the
  webhook and with no channel, none to the url of any channel; the state returned and the
  calls made are the same for every value of the channel; the state is \<open>PendingDelivery\<close>
  when the producer accepts the calls and \<open>Failed\<close> otherwise.
\<close>

theorem deliverArticle_webhook_before_channel:
  fixes env a details w wh
  defines "R \<equiv> deliverArticle env a details w"
  assumes wh: "webhook (deliverySettings details) = Some wh"
  shows "newCalls w (snd R) =
           map (webhookCall env a wh details)
             (generateApiPayloads env a (embeds (deliverySettings details))
                (content (deliverySettings details)) None)
     \<and> length (newCalls w (snd R)) = 1
     \<and> (\<forall>c \<in> set (newCalls w (snd R)).
           q_url c = getWebhookApiUrl (wh_id wh) (wh_token wh)
         \<and> jm_webhookId (q_meta c) = Some (wh_id wh)
         \<and> jm_channel (q_meta c) = None
         \<and> (\<forall>channelId. q_url c \<noteq> getChannelApiUrl channelId))
     \<and> (\<forall>ch. fst (deliverArticle env a
                    (details\<lparr>deliverySettings := (deliverySettings details)\<lparr>channel := ch\<rparr>\<rparr>) w) = fst R
             \<and> enqueued (snd (deliverArticle env a
                    (details\<lparr>deliverySettings := (deliverySettings details)\<lparr>channel := ch\<rparr>\<rparr>) w))
                 = enqueued (snd R))
     \<and> ds_id (fst R) = deliveryId details \<and> ds_mediumId (fst R) = mediumId details
     \<and> ds_status (fst R) =
         (if \<forall>c \<in> set (newCalls w (snd R)). enqueue env c = None then PendingDelivery else Failed)"
proof -
  let ?calls = "webhookCalls env a wh details"
  have nc: "newCalls w (snd R) = ?calls"
    unfolding R_def by (simp add: newCalls_def deliverArticle_webhook_world(1)[OF wh])
  have 1: "newCalls w (snd R) =
           map (webhookCall env a wh details)
             (generateApiPayloads env a (embeds (deliverySettings details))
                (content (deliverySettings details)) None)"
    by (simp add: nc webhookCalls_def)
  have 2: "length (newCalls w (snd R)) = 1"
    using payloads_single[of env a "embeds (deliverySettings details)" "content (deliverySettings details)"]
    by (auto simp: 1)
  have 3: "\<forall>c \<in> set (newCalls w (snd R)).
           q_url c = getWebhookApiUrl (wh_id wh) (wh_token wh)
         \<and> jm_webhookId (q_meta c) = Some (wh_id wh)
         \<and> jm_channel (q_meta c) = None
         \<and> (\<forall>channelId. q_url c \<noteq> getChannelApiUrl channelId)"
    by (auto simp: 1 webhookCall_def urls_differ)
  have 4: "\<forall>ch. fst (deliverArticle env a
                    (details\<lparr>deliverySettings := (deliverySettings details)\<lparr>channel := ch\<rparr>\<rparr>) w) = fst R
             \<and> enqueued (snd (deliverArticle env a
                    (details\<lparr>deliverySettings := (deliverySettings details)\<lparr>channel := ch\<rparr>\<rparr>) w))
                 = enqueued (snd R)"
  proof
    fix ch
    let ?d = "details\<lparr>deliverySettings := (deliverySettings details)\<lparr>channel := ch\<rparr>\<rparr>"
    have wh': "webhook (deliverySettings ?d) = Some wh" using wh by simp
    show "fst (deliverArticle env a ?d w) = fst R \<and>
          enqueued (snd (deliverArticle env a ?d w)) = enqueued (snd R)"
      unfolding R_def
      by (simp add: deliverArticle_webhook_world[OF wh'] deliverArticle_webhook_world[OF wh]
          webhookCalls_channel_irrelevant split: option.split)
  qed
  have 5: "ds_id (fst R) = deliveryId details \<and> ds_mediumId (fst R) = mediumId details"
    unfolding R_def by (simp add: deliverArticle_webhook_world(2)[OF wh] split: option.split)
  have 6: "ds_status (fst R) =
         (if \<forall>c \<in> set (newCalls w (snd R)). enqueue env c = None then PendingDelivery else Failed)"
  proof (cases "\<forall>c \<in> set ?calls. enqueue env c = None")
    case True
    then have "List.find (\<lambda>c. enqueue env c \<noteq> None) ?calls = None"
      by (auto simp: find_None_iff)
    then have "fst (enqueueAll env ?calls w) = None"
      by (simp only: enqueueAll_fst option.case)
    with True show ?thesis unfolding R_def nc[unfolded R_def]
      by (simp add: deliverArticle_webhook_world(2)[OF wh])
  next
    case False
    then obtain c where "List.find (\<lambda>c. enqueue env c \<noteq> None) ?calls = Some c"
      by (cases "List.find (\<lambda>c. enqueue env c \<noteq> None) ?calls") (auto simp: find_None_iff)
    moreover from this have "enqueue env c \<noteq> None" by (auto simp: find_Some_iff)
    ultimately obtain err where "fst (enqueueAll env ?calls w) = Some err"
      by (simp only: enqueueAll_fst option.case) auto
    with False show ?thesis unfolding R_def nc[unfolded R_def]
      by (simp add: deliverArticle_webhook_world(2)[OF wh])
  qed
  from 1 2 3 4 5 6 show ?thesis by blast
qed

theorem deliverArticle_webhook_before_channel_witness:
  "webhook (deliverySettings detailsBoth) = Some webhook0
   \<and> channel (deliverySettings detailsBoth) = Some \<lparr>ch_id = ''channel-1''\<rparr>
   \<and> map q_url (enqueued (snd (deliverArticle denv0 article0 detailsBoth dw0)))
       = [''https://discord.com/api/v10/webhooks/wh-1/token-1'']
   \<and> ds_status (fst (deliverArticle denv0 article0 detailsBoth dw0)) = PendingDelivery"
proof -
  have h: "webhook (deliverySettings detailsBoth) = Some webhook0"
    by (simp add: detailsBoth_def)
  have c: "channel (deliverySettings detailsBoth) = Some \<lparr>ch_id = ''channel-1''\<rparr>"
    by (simp add: detailsBoth_def)
  have e: "\<forall>c. enqueue denv0 c = None" by (simp add: denv0_def)
  have u: "getWebhookApiUrl (wh_id webhook0) (wh_token webhook0) =
           ''https://discord.com/api/v10/webhooks/wh-1/token-1''"
    by (simp add: getWebhookApiUrl_def BASE_API_URL_def webhook0_def)
  let ?R = "deliverArticle denv0 article0 detailsBoth dw0"
  note T = deliverArticle_webhook_before_channel[OF h, where env = denv0 and a = article0 and w = dw0]
  from T have l: "length (newCalls dw0 (snd ?R)) = 1"
    and q: "\<forall>c \<in> set (newCalls dw0 (snd ?R)). q_url c = getWebhookApiUrl (wh_id webhook0) (wh_token webhook0)"
    and s: "ds_status (fst ?R) =
         (if \<forall>c \<in> set (newCalls dw0 (snd ?R)). enqueue denv0 c = None then PendingDelivery else Failed)"
    by blast+
  have n: "newCalls dw0 (snd ?R) = enqueued (snd ?R)" by (simp add: newCalls_def dw0_def)
  from l obtain x where x: "enqueued (snd ?R) = [x]"
    unfolding n by (cases "enqueued (snd ?R)") auto
  with q have "map q_url (enqueued (snd ?R)) = [''https://discord.com/api/v10/webhooks/wh-1/token-1'']"
    unfolding n by (simp add: u)
  moreover from s e have "ds_status (fst ?R) = PendingDelivery" by simp
  ultimately show ?thesis using h c by simp
qed


end
